theory Spec2Isabelle
  imports Complex_Main "HOL-Library.Sublist"
begin

section \<open>Python values used by \<open>convert_audio_tool/core.py\<close>\<close>

subsection \<open>Strings\<close>

text \<open>
  Strings are ASCII character lists. \<open>str.strip()\<close> removes the characters for which
  \<open>str.isspace\<close> holds; in ASCII these are space, \<open>\t \n \v \f \r\<close> and the four
  separators \<open>0x1c .. 0x1f\<close>.
\<close>

definition is_space :: "char \<Rightarrow> bool" where
  "is_space c = (c \<in> set [CHR '' '', CHR 0x09, CHR 0x0A, CHR 0x0B, CHR 0x0C, CHR 0x0D,
                          CHR 0x1C, CHR 0x1D, CHR 0x1E, CHR 0x1F])"

definition strip :: "string \<Rightarrow> string" where
  "strip s = rev (dropWhile is_space (rev (dropWhile is_space s)))"

definition lower_char :: "char \<Rightarrow> char" where
  "lower_char c =
     (case map_of (zip ''ABCDEFGHIJKLMNOPQRSTUVWXYZ'' ''abcdefghijklmnopqrstuvwxyz'') c of
        Some l \<Rightarrow> l
      | None \<Rightarrow> c)"

definition lower :: "string \<Rightarrow> string" where
  "lower s = map lower_char s"

text \<open>\<open>s.startswith(p)\<close>, \<open>s.endswith(p)\<close> and \<open>p in s\<close>.\<close>

definition startswith :: "string \<Rightarrow> string \<Rightarrow> bool" where
  "startswith s p = (take (length p) s = p)"

definition endswith :: "string \<Rightarrow> string \<Rightarrow> bool" where
  "endswith s p = (length p \<le> length s \<and> drop (length s - length p) s = p)"

fun contains :: "string \<Rightarrow> string \<Rightarrow> bool" where
  "contains [] p = (p = [])"
| "contains (c # cs) p = (startswith (c # cs) p \<or> contains cs p)"

text \<open>
  \<open>s.split(sep, 1)\<close> gives a list of one element when \<open>sep\<close> does not occur and of two
  elements otherwise; \<open>after_first c s\<close> is the second element, \<open>None\<close> when there is
  none (where the source's unpacking or indexing raises).
\<close>

definition after_first :: "char \<Rightarrow> string \<Rightarrow> string option" where
  "after_first c s = (if c \<in> set s then Some (tl (dropWhile (\<lambda>x. x \<noteq> c) s)) else None)"

text \<open>\<open>s.split(sep)\<close> with a one-character separator: every occurrence splits.\<close>

function split_on :: "char \<Rightarrow> string \<Rightarrow> string list" where
  "split_on c s =
     (if c \<in> set s
      then takeWhile (\<lambda>x. x \<noteq> c) s # split_on c (tl (dropWhile (\<lambda>x. x \<noteq> c) s))
      else [s])"
  by pat_completeness auto
termination
proof (relation "measure (\<lambda>(c, s). length s)")
  show "wf (measure (\<lambda>(c, s). length s))" by simp
next
  fix c :: char and s :: string
  assume "c \<in> set s"
  then have "dropWhile (\<lambda>x. x \<noteq> c) s \<noteq> []" by simp
  then have "length (tl (dropWhile (\<lambda>x. x \<noteq> c) s)) < length (dropWhile (\<lambda>x. x \<noteq> c) s)"
    by (cases "dropWhile (\<lambda>x. x \<noteq> c) s") simp_all
  also have "\<dots> \<le> length s" by (rule length_dropWhile_le)
  finally show "((c, tl (dropWhile (\<lambda>x. x \<noteq> c) s)), (c, s)) \<in> measure (\<lambda>(c, s). length s)"
    by simp
qed

declare split_on.simps [simp del]

subsection \<open>Floats\<close>

text \<open>
  A Python float is a binary64 value: finite (a rational), an infinity or a NaN; the two
  zeros are one value. Comparisons with a NaN are false, as in IEEE 754.
\<close>

datatype pyfloat = Fin rat | PInf | NInf | NaN

text \<open>
  Rounding to binary64, to nearest with ties to even. \<open>bits n\<close> is the number of binary
  digits of \<open>n\<close>, \<open>floor_log2 a\<close> the exponent \<open>e\<close> with \<open>2 ^ e \<le> a < 2 ^ (e + 1)\<close> for a
  positive \<open>a\<close>. A value with exponent \<open>e\<close> is rounded to a multiple of \<open>2 ^ (e - 52)\<close>,
  and to a multiple of \<open>2 ^ - 1074\<close> below the normal range; a result of \<open>2 ^ 1024\<close> or
  more is an infinity.
\<close>

fun bits :: "nat \<Rightarrow> nat" where
  "bits n = (if n = 0 then 0 else Suc (bits (n div 2)))"

declare bits.simps [simp del]

definition pow2 :: "int \<Rightarrow> rat" where
  "pow2 k = (if 0 \<le> k then 2 ^ nat k else 1 / 2 ^ nat (- k))"

definition floor_log2 :: "rat \<Rightarrow> int" where
  "floor_log2 a =
     (if 1 \<le> a then int (bits (nat \<lfloor>a\<rfloor>)) - 1
      else if 1 / a = pow2 (int (bits (nat \<lfloor>1 / a\<rfloor>)) - 1)
        then - (int (bits (nat \<lfloor>1 / a\<rfloor>)) - 1)
      else - int (bits (nat \<lfloor>1 / a\<rfloor>)))"

definition round_even :: "rat \<Rightarrow> int" where
  "round_even q =
     (if q - of_int \<lfloor>q\<rfloor> < 1 / 2 then \<lfloor>q\<rfloor>
      else if 1 / 2 < q - of_int \<lfloor>q\<rfloor> then \<lfloor>q\<rfloor> + 1
      else if even \<lfloor>q\<rfloor> then \<lfloor>q\<rfloor>
      else \<lfloor>q\<rfloor> + 1)"

definition nearest :: "rat \<Rightarrow> rat" where
  "nearest a =
     of_int (round_even (a / pow2 (max (floor_log2 a) (- 1022) - 52)))
       * pow2 (max (floor_log2 a) (- 1022) - 52)"

definition fl :: "rat \<Rightarrow> pyfloat" where
  "fl x =
     (if x = 0 then Fin 0
      else if pow2 1024 \<le> nearest \<bar>x\<bar> then (if x < 0 then NInf else PInf)
      else Fin (if x < 0 then - nearest \<bar>x\<bar> else nearest \<bar>x\<bar>))"

text \<open>
  The conversion of an \<open>int\<close> to a float, in \<open>int / float\<close> and \<open>float + int\<close>; \<open>None\<close> is
  \<open>OverflowError\<close>.
\<close>

definition int_to_float :: "int \<Rightarrow> rat option" where
  "int_to_float n = (case fl (of_int n) of Fin x \<Rightarrow> Some x | _ \<Rightarrow> None)"

fun flt :: "pyfloat \<Rightarrow> pyfloat \<Rightarrow> bool" where
  "flt (Fin a) (Fin b) = (a < b)"
| "flt (Fin a) PInf = True"
| "flt NInf (Fin b) = True"
| "flt NInf PInf = True"
| "flt _ _ = False"

text \<open>Float addition and subtraction: the exact result, rounded.\<close>

fun fadd :: "pyfloat \<Rightarrow> pyfloat \<Rightarrow> pyfloat" where
  "fadd (Fin a) (Fin b) = fl (a + b)"
| "fadd NaN _ = NaN"
| "fadd _ NaN = NaN"
| "fadd PInf NInf = NaN"
| "fadd NInf PInf = NaN"
| "fadd PInf _ = PInf"
| "fadd _ PInf = PInf"
| "fadd NInf _ = NInf"
| "fadd _ NInf = NInf"

fun fneg :: "pyfloat \<Rightarrow> pyfloat" where
  "fneg (Fin a) = Fin (- a)"
| "fneg PInf = NInf"
| "fneg NInf = PInf"
| "fneg NaN = NaN"

definition fsub :: "pyfloat \<Rightarrow> pyfloat \<Rightarrow> pyfloat" where
  "fsub a b = fadd a (fneg b)"

text \<open>The builtin \<open>min(a, b)\<close> returns \<open>b\<close> when \<open>b < a\<close> and \<open>a\<close> otherwise.\<close>

definition pymin :: "pyfloat \<Rightarrow> pyfloat \<Rightarrow> pyfloat" where
  "pymin a b = (if flt b a then b else a)"

text \<open>Truth value of an \<open>Optional[float]\<close>: \<open>None\<close> and zero are false.\<close>

fun truthy :: "pyfloat option \<Rightarrow> bool" where
  "truthy None = False"
| "truthy (Some (Fin x)) = (x \<noteq> 0)"
| "truthy (Some _) = True"

subsection \<open>The builtins \<open>int(str)\<close> and \<open>float(str)\<close>\<close>

definition digit_of :: "char \<Rightarrow> nat option" where
  "digit_of c = map_of (zip ''0123456789'' [0, 1, 2, 3, 4, 5, 6, 7, 8, 9]) c"

text \<open>
  A digit part is \<open>digit (["_"] digit)*\<close>. \<open>digits_val\<close> reads what follows a digit and
  returns the value together with the number of digits read.
\<close>

fun digits_val :: "nat \<Rightarrow> nat \<Rightarrow> string \<Rightarrow> (nat \<times> nat) option" where
  "digits_val acc k [] = Some (acc, k)"
| "digits_val acc k (c # cs) =
     (if c = CHR ''_'' then
        (case cs of
           [] \<Rightarrow> None
         | d # ds \<Rightarrow>
             (case digit_of d of
                None \<Rightarrow> None
              | Some v \<Rightarrow> digits_val (10 * acc + v) (Suc k) ds))
      else
        (case digit_of c of
           None \<Rightarrow> None
         | Some v \<Rightarrow> digits_val (10 * acc + v) (Suc k) cs))"

definition digitpart :: "string \<Rightarrow> (nat \<times> nat) option" where
  "digitpart s =
     (case s of
        [] \<Rightarrow> None
      | c # cs \<Rightarrow> (case digit_of c of None \<Rightarrow> None | Some v \<Rightarrow> digits_val v 1 cs))"

text \<open>An optional sign in front of the rest: the sign (\<open>True\<close> for minus) and the rest.\<close>

definition split_sign :: "string \<Rightarrow> bool \<times> string" where
  "split_sign s =
     (case s of
        [] \<Rightarrow> (False, [])
      | c # cs \<Rightarrow>
          if c = CHR ''-'' then (True, cs)
          else if c = CHR ''+'' then (False, cs)
          else (False, c # cs))"

text \<open>
  \<open>int(s)\<close> in base 10; \<open>None\<close> is \<open>ValueError\<close>, which the interpreter also raises
  for a string of more than \<open>sys.get_int_max_str_digits()\<close> digits, 4300 by default.
  Digits outside ASCII are not part of this model.
\<close>

definition int_max_str_digits :: nat where
  "int_max_str_digits = 4300"

definition py_int :: "string \<Rightarrow> int option" where
  "py_int s =
     (let (neg, body) = split_sign (strip s) in
      case digitpart body of
        None \<Rightarrow> None
      | Some (v, k) \<Rightarrow>
          if int_max_str_digits < k then None
          else Some (if neg then - int v else int v))"

text \<open>
  \<open>float(s)\<close>: an optional sign, then \<open>inf\<close>, \<open>infinity\<close> or \<open>nan\<close> in any case, or a
  decimal number with an optional fraction and an optional exponent, rounded to
  binary64.
\<close>

definition split_exp :: "string \<Rightarrow> string \<times> string option" where
  "split_exp s =
     (let m = takeWhile (\<lambda>c. c \<noteq> CHR ''e'' \<and> c \<noteq> CHR ''E'') s;
          r = dropWhile (\<lambda>c. c \<noteq> CHR ''e'' \<and> c \<noteq> CHR ''E'') s
      in (m, if r = [] then None else Some (tl r)))"

definition mantissa :: "string \<Rightarrow> rat option" where
  "mantissa s =
     (case after_first CHR ''.'' s of
        None \<Rightarrow> map_option (\<lambda>(v, k). of_nat v) (digitpart s)
      | Some fp \<Rightarrow>
          (let ip = takeWhile (\<lambda>c. c \<noteq> CHR ''.'') s in
           if ip = [] then map_option (\<lambda>(v, k). of_nat v / 10 ^ k) (digitpart fp)
           else if fp = [] then map_option (\<lambda>(v, k). of_nat v) (digitpart ip)
           else
             (case digitpart ip of
                None \<Rightarrow> None
              | Some (iv, ik) \<Rightarrow>
                  map_option (\<lambda>(v, k). of_nat iv + of_nat v / 10 ^ k) (digitpart fp))))"

definition exponent :: "string option \<Rightarrow> (rat \<Rightarrow> rat) option" where
  "exponent e =
     (case e of
        None \<Rightarrow> Some (\<lambda>x. x)
      | Some t \<Rightarrow>
          (let (neg, body) = split_sign t in
           map_option (\<lambda>(v, k). if neg then (\<lambda>x. x / 10 ^ v) else (\<lambda>x. x * 10 ^ v))
             (digitpart body)))"

definition py_float :: "string \<Rightarrow> pyfloat option" where
  "py_float s =
     (let (neg, body) = split_sign (strip s) in
      if lower body = ''inf'' \<or> lower body = ''infinity''
        then Some (if neg then NInf else PInf)
      else if lower body = ''nan'' then Some NaN
      else
        (let (m, e) = split_exp body in
         case mantissa m of
           None \<Rightarrow> None
         | Some x \<Rightarrow>
             (case exponent e of
                None \<Rightarrow> None
              | Some scale \<Rightarrow> Some (fl (if neg then - scale x else scale x)))))"

subsection \<open>Paths (\<open>posixpath\<close>)\<close>

text \<open>\<open>os.path.join(a, b)\<close>, \<open>os.path.basename(p)\<close>\<close>

definition join :: "string \<Rightarrow> string \<Rightarrow> string" where
  "join a b =
     (if startswith b ''/'' then b
      else if a = [] \<or> endswith a ''/'' then a @ b
      else a @ ''/'' @ b)"

definition basename :: "string \<Rightarrow> string" where
  "basename p = rev (takeWhile (\<lambda>c. c \<noteq> CHR ''/'') (rev p))"

text \<open>
  \<open>os.path.splitext(p)[0]\<close>: the extension starts at the last dot of the last
  component, unless only dots precede it there.
\<close>

definition splitext_root :: "string \<Rightarrow> string" where
  "splitext_root p =
     (let ext = rev (takeWhile (\<lambda>c. c \<noteq> CHR ''.'') (rev p));
          stem = take (length p - length ext - 1) p
      in if CHR ''.'' \<in> set p \<and> CHR ''/'' \<notin> set ext
            \<and> list_ex (\<lambda>c. c \<noteq> CHR ''.'') (basename stem)
         then stem else p)"

text \<open>\<open>str(n)\<close> for a list length.\<close>

fun str_nat :: "nat \<Rightarrow> string" where
  "str_nat n =
     (if n < 10 then [''0123456789'' ! n]
      else str_nat (n div 10) @ [''0123456789'' ! (n mod 10)])"

declare str_nat.simps [simp del]

section \<open>FFmpeg helpers\<close>

text \<open>
  Exceptions that leave a function are values. The environment holds what the program
  cannot decide itself: whether \<open>shutil.which\<close> finds the two tools, what \<open>ffprobe\<close>
  prints for a path (\<open>None\<close> when \<open>subprocess.run\<close> raises: tool missing or non-zero
  exit), what happens when a command is launched with \<open>subprocess.Popen\<close>, and the
  directory tree that \<open>os.listdir\<close> and \<open>os.walk\<close> enumerate under the input folder.
  A launched process is taken to terminate: its standard output is a finite list of
  lines, followed by its return code and whether it has written its output file.
\<close>

datatype exn = EnvironmentError string | SystemExit int

datatype outcome = SpawnFails string | Runs "string list" int bool

datatype entry = Regular string | Directory string "entry list" | Other string

record env =
  ffmpeg_found :: bool
  ffprobe_found :: bool
  ffprobe :: "string \<Rightarrow> string option"
  popen :: "string list \<Rightarrow> outcome"
  listing :: "entry list"

text \<open>
  The world is what the program changes: the file system (paths of files and of
  directories), the printed lines, the commands given to \<open>subprocess.Popen\<close>, the
  progress bars (total and the arguments of \<open>update\<close>, in order) and the calls of
  \<open>shutil.move\<close>.
\<close>

record world =
  files :: "string set"
  dirs :: "string set"
  console :: "string list"
  launches :: "string list list"
  bars :: "(pyfloat \<times> pyfloat list) list"
  moved :: "(string \<times> string) list"

definition print :: "string \<Rightarrow> world \<Rightarrow> world" where
  "print s w = w\<lparr>console := console w @ [s]\<rparr>"

definition check_ffmpeg :: "env \<Rightarrow> exn option" where
  "check_ffmpeg e =
     (if \<not> ffmpeg_found e
        then Some (EnvironmentError ''ffmpeg is not installed or not found in PATH.'')
      else if \<not> ffprobe_found e
        then Some (EnvironmentError ''ffprobe is not installed or not found in PATH.'')
      else None)"

definition get_media_duration :: "env \<Rightarrow> string \<Rightarrow> pyfloat option" where
  "get_media_duration e path =
     (case ffprobe e path of None \<Rightarrow> None | Some out \<Rightarrow> py_float (strip out))"

definition parse_out_time :: "string \<Rightarrow> pyfloat option" where
  "parse_out_time line =
     (case after_first CHR ''='' line of
        None \<Rightarrow> None
      | Some v \<Rightarrow>
          (let value = strip v in
           if value = [] then None
           else
             (case split_on CHR '':'' value of
                [h_str, m_str, s_str] \<Rightarrow>
                  (case py_int h_str of
                     None \<Rightarrow> None
                   | Some h \<Rightarrow>
                       (case py_int m_str of
                          None \<Rightarrow> None
                        | Some m \<Rightarrow>
                            (case py_float s_str of
                               None \<Rightarrow> None
                             | Some s \<Rightarrow>
                                 (case int_to_float (60 * (m + 60 * h)) of
                                    None \<Rightarrow> None
                                  | Some y \<Rightarrow> Some (fadd s (Fin y))))))
              | _ \<Rightarrow> None)))"

section \<open>Conversion\<close>

subsection \<open>The progress loop of \<open>convert_media\<close>\<close>

text \<open>
  The state of the loop: \<open>last_t\<close> and the arguments that \<open>pbar.update\<close> has received.
  The bar's counter is the sum of these arguments, added one by one as floats.
\<close>

record progress =
  last_t :: pyfloat
  updates :: "pyfloat list"

definition indicator :: "pyfloat list \<Rightarrow> pyfloat" where
  "indicator us = foldl fadd (Fin 0) us"

text \<open>The timestamp \<open>t\<close> that the loop body computes from a stripped line.\<close>

definition line_time :: "string \<Rightarrow> pyfloat option" where
  "line_time line =
     (if startswith line ''out_time_ms='' then
        (case after_first CHR ''='' line of
           None \<Rightarrow> None
         | Some v \<Rightarrow>
             (case py_int v of
                None \<Rightarrow> None
              | Some ms \<Rightarrow>
                  (case int_to_float ms of
                     None \<Rightarrow> None
                   | Some x \<Rightarrow> Some (fl (x / 1000000)))))
      else if startswith line ''out_time='' then parse_out_time line
      else None)"

definition advance :: "pyfloat \<Rightarrow> progress \<Rightarrow> pyfloat option \<Rightarrow> progress" where
  "advance duration st t =
     (case t of
        None \<Rightarrow> st
      | Some t0 \<Rightarrow>
          (let t1 = pymin t0 duration in
           if flt (last_t st) t1
           then \<lparr>last_t = t1, updates = updates st @ [fsub t1 (last_t st)]\<rparr>
           else st))"

definition is_end :: "string \<Rightarrow> bool" where
  "is_end line = (startswith line ''progress='' \<and> contains line ''end'')"

fun consume :: "pyfloat \<Rightarrow> progress \<Rightarrow> string list \<Rightarrow> progress" where
  "consume duration st [] = st"
| "consume duration st (raw_line # rest) =
     (if strip raw_line = [] then consume duration st rest
      else if is_end (strip raw_line) then advance duration st (line_time (strip raw_line))
      else consume duration (advance duration st (line_time (strip raw_line))) rest)"

text \<open>After \<open>process.wait()\<close>: the bar is completed when \<open>last_t < duration\<close>.\<close>

definition finish :: "pyfloat \<Rightarrow> progress \<Rightarrow> progress" where
  "finish duration st =
     (if flt (last_t st) duration
      then st\<lparr>updates := updates st @ [fsub duration (last_t st)]\<rparr>
      else st)"

definition run_bar :: "pyfloat \<Rightarrow> string list \<Rightarrow> progress" where
  "run_bar duration lines = finish duration (consume duration \<lparr>last_t = Fin 0, updates = []\<rparr> lines)"

subsection \<open>\<open>convert_media\<close>\<close>

definition command :: "string \<Rightarrow> string \<Rightarrow> bool \<Rightarrow> string list" where
  "command input_file output_file overwrite =
     [''ffmpeg'', ''-hide_banner'', ''-loglevel'', ''error'', ''-progress'', ''pipe:1'',
      ''-nostats'', if overwrite then ''-y'' else ''-n'', ''-i'', input_file, output_file]"

definition report :: "string \<Rightarrow> string \<Rightarrow> bool \<Rightarrow> int \<Rightarrow> world \<Rightarrow> world" where
  "report input_file output_file quiet ret w =
     (if ret = 0 \<and> \<not> quiet then print (''OK  '' @ input_file @ '' -> '' @ output_file) w
      else if ret \<noteq> 0
        then print (''Error during conversion: '' @ input_file @ '' -> '' @ output_file) w
      else w)"

text \<open>
  \<open>launched\<close> records a call of \<open>subprocess.Popen\<close>; \<open>written\<close> is the effect of a
  process that has produced its output file.
\<close>

definition launched :: "string list \<Rightarrow> world \<Rightarrow> world" where
  "launched cmd w = w\<lparr>launches := launches w @ [cmd]\<rparr>"

definition written :: "string \<Rightarrow> bool \<Rightarrow> world \<Rightarrow> world" where
  "written output_file wrote w =
     (if wrote then w\<lparr>files := insert output_file (files w)\<rparr> else w)"

text \<open>
  \<open>check_ffmpeg()\<close> is called before the \<open>try\<close> block: its exception leaves
  \<open>convert_media\<close>. The \<open>try\<close> block starts at the launch, and its handler prints the
  exception and returns. With \<open>stdout=subprocess.PIPE\<close> the attribute \<open>process.stdout\<close> is
  a stream, so that \<open>not duration or not process.stdout\<close> is \<open>not duration\<close>.
\<close>

definition convert_media ::
  "env \<Rightarrow> string \<Rightarrow> string \<Rightarrow> bool \<Rightarrow> bool \<Rightarrow> world \<Rightarrow> exn option \<times> world" where
  "convert_media e input_file output_file overwrite quiet w =
     (case check_ffmpeg e of
        Some x \<Rightarrow> (Some x, w)
      | None \<Rightarrow>
          if (output_file \<in> files w \<or> output_file \<in> dirs w) \<and> \<not> overwrite then
            (None, if \<not> quiet then print (''Skipping (exists): '' @ output_file) w else w)
          else
            (let duration = get_media_duration e input_file;
                 cmd = command input_file output_file overwrite;
                 w1 = launched cmd w
             in case popen e cmd of
                  SpawnFails msg \<Rightarrow>
                    (None, print (''Error converting '' @ input_file @ '': '' @ msg) w1)
                | Runs lines ret wrote \<Rightarrow>
                    (let w2 = written output_file wrote w1 in
                     if \<not> truthy duration then
                       (None, report input_file output_file quiet ret w2)
                     else
                       (case duration of
                          None \<Rightarrow> (None, report input_file output_file quiet ret w2)
                        | Some d \<Rightarrow>
                            (None,
                             report input_file output_file quiet ret
                               (w2\<lparr>bars := bars w2 @ [(d, updates (run_bar d lines))]\<rparr>))))))"

subsection \<open>\<open>iter_media_files\<close>\<close>

definition MEDIA_EXTENSIONS :: "string list" where
  "MEDIA_EXTENSIONS =
     [''.wav'', ''.flac'', ''.aac'', ''.ogg'', ''.mp3'', ''.mp4'', ''.m4a'', ''.mxf'', ''.mov'',
      ''.avi'']"

text \<open>\<open>s.lower().endswith(MEDIA_EXTENSIONS)\<close>\<close>

definition is_media :: "string \<Rightarrow> bool" where
  "is_media s = list_ex (endswith (lower s)) MEDIA_EXTENSIONS"

text \<open>
  An entry of a directory is a regular file (or a link to one), a directory that
  \<open>os.walk\<close> descends into, or anything else: a dangling link, a special file, a link
  to a directory. \<open>os.path.isfile\<close> holds of the first kind only.
\<close>

fun entry_name :: "entry \<Rightarrow> string" where
  "entry_name (Regular n) = n"
| "entry_name (Directory n sub) = n"
| "entry_name (Other n) = n"

fun isfile :: "entry \<Rightarrow> bool" where
  "isfile (Regular n) = True"
| "isfile (Directory n sub) = False"
| "isfile (Other n) = False"

fun isdir :: "entry \<Rightarrow> bool" where
  "isdir (Directory n sub) = True"
| "isdir (Regular n) = False"
| "isdir (Other n) = False"

text \<open>The body of both loops: the full path is yielded or not.\<close>

definition candidate :: "string \<Rightarrow> entry \<Rightarrow> string list" where
  "candidate folder e =
     (let full = join folder (entry_name e) in
      if isfile e \<and> is_media full then [full] else [])"

text \<open>
  \<open>os.walk\<close> gives a directory with the names of its non-directories, then each of its
  subdirectories in turn.
\<close>

fun walk :: "string \<Rightarrow> entry list \<Rightarrow> string list"
  and descend :: "string \<Rightarrow> entry \<Rightarrow> string list" where
  "walk folder es =
     concat (map (candidate folder) (filter (\<lambda>e. \<not> isdir e) es)) @
     concat (map (descend folder) (filter isdir es))"
| "descend folder (Directory n sub) = walk (join folder n) sub"
| "descend folder (Regular n) = []"
| "descend folder (Other n) = []"

definition iter_media_files :: "env \<Rightarrow> string \<Rightarrow> bool \<Rightarrow> string list" where
  "iter_media_files e input_folder recursive =
     (if recursive then walk input_folder (listing e)
      else concat (map (candidate input_folder) (listing e)))"

subsection \<open>\<open>convert_folder\<close>\<close>

text \<open>
  \<open>os.makedirs(p, exist_ok=True)\<close> and \<open>shutil.move(src, dest)\<close> are taken to succeed.
\<close>

definition makedirs :: "string \<Rightarrow> world \<Rightarrow> world" where
  "makedirs p w = w\<lparr>dirs := insert p (dirs w)\<rparr>"

definition move :: "string \<Rightarrow> string \<Rightarrow> world \<Rightarrow> world" where
  "move src dest w = w\<lparr>files := insert dest (files w - {src}), moved := moved w @ [(src, dest)]\<rparr>"

text \<open>
  The conversion loop, with the list \<open>converted_files\<close> as an accumulator. An exception
  of \<open>convert_media\<close> leaves the loop and the function.
\<close>

fun convert_all ::
  "env \<Rightarrow> string \<Rightarrow> string \<Rightarrow> bool \<Rightarrow> bool \<Rightarrow> string list \<Rightarrow> string list \<Rightarrow> world
     \<Rightarrow> exn option \<times> string list \<times> world" where
  "convert_all e output_folder output_ext overwrite quiet [] converted_files w =
     (None, converted_files, w)"
| "convert_all e output_folder output_ext overwrite quiet (src_path # rest) converted_files w =
     (let rel_name = splitext_root (basename src_path);
          out_path = join output_folder (rel_name @ output_ext)
      in case convert_media e src_path out_path overwrite quiet w of
           (Some x, w') \<Rightarrow> (Some x, converted_files, w')
         | (None, w') \<Rightarrow>
             convert_all e output_folder output_ext overwrite quiet rest
               (converted_files @ [src_path]) w')"

definition archive :: "string \<Rightarrow> string list \<Rightarrow> bool \<Rightarrow> world \<Rightarrow> world" where
  "archive archive_folder converted_files quiet w =
     (let w1 = makedirs archive_folder w;
          w2 = foldl (\<lambda>v src. move src (join archive_folder (basename src)) v) w1 converted_files
      in if \<not> quiet
         then print (''Moved '' @ str_nat (length converted_files) @ '' file(s) to archive: ''
                      @ archive_folder) w2
         else w2)"

definition convert_folder ::
  "env \<Rightarrow> string \<Rightarrow> string \<Rightarrow> string \<Rightarrow> bool \<Rightarrow> bool \<Rightarrow> bool \<Rightarrow> string option \<Rightarrow> world
     \<Rightarrow> exn option \<times> world" where
  "convert_folder e input_folder output_folder output_ext recursive overwrite quiet
       archive_folder w =
     (if input_folder \<notin> dirs w then
        (Some (SystemExit 1), print (''Input folder does not exist: '' @ input_folder) w)
      else
        (case convert_all e output_folder output_ext overwrite quiet
                (iter_media_files e input_folder recursive) [] (makedirs output_folder w) of
           (Some x, converted_files, w') \<Rightarrow> (Some x, w')
         | (None, converted_files, w') \<Rightarrow>
             (case archive_folder of
                None \<Rightarrow> (None, w')
              | Some a \<Rightarrow> (None, archive a converted_files quiet w'))))"

section \<open>Notions used by the properties\<close>

text \<open>\<open>a <= b\<close> on floats.\<close>

definition fle :: "pyfloat \<Rightarrow> pyfloat \<Rightarrow> bool" where
  "fle a b = (a = b \<or> flt a b)"

text \<open>
  The loop invariant of the progress loop: \<open>last_t\<close> lies between zero and the duration.
\<close>

definition tracked :: "pyfloat \<Rightarrow> progress \<Rightarrow> bool" where
  "tracked duration st = (fle (Fin 0) (last_t st) \<and> fle (last_t st) duration)"

text \<open>
  A file name is not empty and has no separator; the names of a directory are distinct,
  in every directory of the tree.
\<close>

definition valid_name :: "string \<Rightarrow> bool" where
  "valid_name n = (n \<noteq> [] \<and> CHR ''/'' \<notin> set n)"

fun wf_entry :: "entry \<Rightarrow> bool" and wf_entries :: "entry list \<Rightarrow> bool" where
  "wf_entry (Regular n) = valid_name n"
| "wf_entry (Other n) = valid_name n"
| "wf_entry (Directory n sub) = (valid_name n \<and> wf_entries sub)"
| "wf_entries [] = True"
| "wf_entries (x # xs) = (wf_entry x \<and> entry_name x \<notin> entry_name ` set xs \<and> wf_entries xs)"

text \<open>
  \<open>regular_at folder es p n\<close>: the tree \<open>es\<close> of directory \<open>folder\<close> has a regular file of
  name \<open>n\<close> whose path is \<open>p\<close>.
\<close>

inductive regular_at :: "string \<Rightarrow> entry list \<Rightarrow> string \<Rightarrow> string \<Rightarrow> bool" where
  here: "Regular n \<in> set es \<Longrightarrow> regular_at folder es (join folder n) n"
| below: "Directory d sub \<in> set es \<Longrightarrow> regular_at (join folder d) sub p n
          \<Longrightarrow> regular_at folder es p n"

text \<open>
  A progress line is \<open>key=value\<close>. A line is malformed when it is empty after
  trimming, when its key is none of the three recognised keys, when the value of a
  timestamp key fails to parse or is an integer too large for a float, or when the
  value of the \<open>progress\<close> key is none of the two values of the protocol, \<open>continue\<close>
  and \<open>end\<close>.
\<close>

definition line_key :: "string \<Rightarrow> string option" where
  "line_key l = (if CHR ''='' \<in> set l then Some (takeWhile (\<lambda>c. c \<noteq> CHR ''='') l) else None)"

definition malformed :: "string \<Rightarrow> bool" where
  "malformed raw_line =
     (let l = strip raw_line in
      l = []
      \<or> line_key l \<notin> {Some ''out_time_ms'', Some ''out_time'', Some ''progress''}
      \<or> (line_key l = Some ''out_time_ms''
          \<and> (case after_first CHR ''='' l of
                None \<Rightarrow> True
              | Some v \<Rightarrow>
                  (case py_int v of None \<Rightarrow> True | Some ms \<Rightarrow> int_to_float ms = None)))
      \<or> (line_key l = Some ''out_time'' \<and> parse_out_time l = None)
      \<or> (line_key l = Some ''progress''
          \<and> after_first CHR ''='' l \<notin> {Some ''continue'', Some ''end''}))"

text \<open>
  Environments and a world for the examples: both tools found or not, \<open>ffprobe\<close> printing
  the same text for every path, every launch with the same outcome.
\<close>

definition test_env :: "bool \<Rightarrow> string \<Rightarrow> outcome \<Rightarrow> entry list \<Rightarrow> env" where
  "test_env found probe_out oc es =
     \<lparr>ffmpeg_found = found, ffprobe_found = True, ffprobe = (\<lambda>p. Some probe_out),
      popen = (\<lambda>c. oc), listing = es\<rparr>"

definition test_world :: "string set \<Rightarrow> string set \<Rightarrow> world" where
  "test_world fs ds =
     \<lparr>files = fs, dirs = ds, console = [], launches = [], bars = [], moved = []\<rparr>"

text \<open>The standard output of the mocked process in \<open>tests/test_convert_media.py\<close>.\<close>

definition test_lines :: "string list" where
  "test_lines =
     [''out_time_ms=5000000\<newline>'', ''progress=continue\<newline>'', ''out_time_ms=10000000\<newline>'',
      ''progress=end\<newline>'']"

text \<open>
  The path of an entry of name \<open>n\<close> in directory \<open>folder\<close> is \<open>dir_prefix folder @ n\<close>; the
  first component of a path below \<open>folder\<close> is what follows the prefix, up to the next
  separator.
\<close>

definition dir_prefix :: "string \<Rightarrow> string" where
  "dir_prefix folder = (if folder = [] \<or> endswith folder ''/'' then folder else folder @ ''/'')"

definition first_component :: "string \<Rightarrow> string \<Rightarrow> string" where
  "first_component folder p =
     takeWhile (\<lambda>c. c \<noteq> CHR ''/'') (drop (length (dir_prefix folder)) p)"

text \<open>A tree for the examples.\<close>

definition test_tree :: "entry list" where
  "test_tree =
     [Regular ''sound.WAV'', Regular ''notes.txt'', Other ''link.mp3'',
      Directory ''sub'' [Regular ''clip.mxf'', Directory ''x.wav'' []]]"

section \<open>Properties\<close>

subsection \<open>Evaluation of examples\<close>

lemma endswith_rev: "endswith s p = prefix (rev p) (rev s)"
  by (metis endswith_def suffix_def suffix_to_prefix append_eq_conv_conj
        length_append add_diff_cancel_right' append_take_drop_id le_add2 length_drop)

lemma startswith_prefix: "startswith s p = prefix p s"
  by (metis startswith_def prefix_def append_eq_conv_conj take_is_prefix)

lemma floor_rat_numeral: "\<lfloor>numeral a / (numeral b :: rat)\<rfloor> = numeral a div numeral b"
  using floor_divide_of_int_eq [of "numeral a" "numeral b", where ?'a = rat] by simp

lemmas str_defs = strip_def is_space_def startswith_prefix endswith_rev after_first_def
  lower_def lower_char_def
lemmas fl_defs = fl_def nearest_def round_even_def floor_log2_def pow2_def bits.simps
  floor_rat_numeral int_to_float_def
lemmas num_defs = py_int_def int_max_str_digits_def py_float_def split_sign_def digitpart_def
  digit_of_def
  split_exp_def mantissa_def exponent_def fl_defs
lemmas loop_defs = line_time_def parse_out_time_def advance_def is_end_def finish_def
  run_bar_def pymin_def fsub_def indicator_def Let_def
lemmas media_defs = convert_media_def check_ffmpeg_def get_media_duration_def command_def
  report_def launched_def written_def print_def test_env_def test_world_def test_lines_def
lemmas batch_defs = convert_folder_def iter_media_files_def candidate_def is_media_def
  MEDIA_EXTENSIONS_def join_def basename_def splitext_root_def makedirs_def move_def
  archive_def

subsection \<open>The progress bar\<close>

lemma fle_trans: "fle a b \<Longrightarrow> fle b c \<Longrightarrow> fle a c"
  by (cases a; cases b; cases c) (auto simp: fle_def)

lemma advance_tracked:
  assumes "tracked duration st"
  shows "tracked duration (advance duration st t)
         \<and> fle (last_t st) (last_t (advance duration st t))"
proof (cases t)
  case None
  with assms show ?thesis by (simp add: advance_def fle_def)
next
  case (Some t0)
  with assms show ?thesis
    by (cases t0; cases duration; cases "last_t st")
       (auto simp: advance_def tracked_def fle_def pymin_def Let_def)
qed

lemma consume_tracked:
  "tracked duration st \<Longrightarrow>
   tracked duration (consume duration st ls)
   \<and> fle (last_t st) (last_t (consume duration st ls))"
proof (induction ls arbitrary: st)
  case Nil
  then show ?case by (simp add: fle_def)
next
  case (Cons raw rest)
  let ?st' = "advance duration st (line_time (strip raw))"
  from advance_tracked [OF Cons.prems]
  have a: "tracked duration ?st'" "fle (last_t st) (last_t ?st')"
    by simp_all
  from Cons.IH [OF a(1)]
  have b: "tracked duration (consume duration ?st' rest)"
    "fle (last_t ?st') (last_t (consume duration ?st' rest))"
    by simp_all
  from Cons.IH [OF Cons.prems] a b show ?case
    by (auto intro: fle_trans)
qed

lemma consume_append:
  "consume duration st (ls @ ls2) = consume duration st ls \<or>
   consume duration st (ls @ ls2) = consume duration (consume duration st ls) ls2"
  by (induction ls arbitrary: st) auto

lemma tracked_init:
  "flt (Fin 0) duration \<Longrightarrow> tracked duration \<lparr>last_t = Fin 0, updates = []\<rparr>"
  by (simp add: tracked_def fle_def)

lemma positive_truthy: "flt (Fin 0) duration \<Longrightarrow> truthy (Some duration)"
  by (cases duration) auto

lemma advance_clamps:
  "advance duration st t = st
   \<or> (\<exists>t0. t = Some t0 \<and> flt (last_t st) (pymin t0 duration)
           \<and> advance duration st t
               = \<lparr>last_t = pymin t0 duration,
                  updates = updates st @ [fsub (pymin t0 duration) (last_t st)]\<rparr>)"
  by (cases t) (auto simp: advance_def Let_def)

lemma finish_update:
  "last_t (finish duration st) = last_t st
   \<and> updates (finish duration st)
       = updates st @ (if flt (last_t st) duration then [fsub duration (last_t st)] else [])"
  by (simp add: finish_def)

lemma bars_report [simp]: "bars (report i out q ret w) = bars w"
  by (simp add: report_def print_def)

lemma convert_media_bar:
  assumes "check_ffmpeg e = None"
    and "overwrite \<or> (output_file \<notin> files w \<and> output_file \<notin> dirs w)"
    and "popen e (command input_file output_file overwrite) = Runs lines ret wrote"
    and "get_media_duration e input_file = Some duration"
    and "truthy (Some duration)"
  shows "bars (snd (convert_media e input_file output_file overwrite quiet w))
           = bars w @ [(duration, updates (run_bar duration lines))]"
  using assms by (auto simp: convert_media_def Let_def launched_def written_def)

text \<open>
  C1 (amended). For a job whose probed duration is greater than zero, the bar that
  \<open>convert_media\<close> drives receives the updates of the progress loop; over the consumed
  lines \<open>last_t\<close> never decreases and never exceeds the duration; a timestamp changes it
  only when, clamped to the duration, it exceeds it, and the bar is then updated by the
  difference; after the loop the bar receives one more update, of the duration minus
  \<open>last_t\<close>, when \<open>last_t\<close> is below the duration.
\<close>

theorem known_duration_progress:
  assumes "check_ffmpeg e = None"
    and "overwrite \<or> (output_file \<notin> files w \<and> output_file \<notin> dirs w)"
    and "popen e (command input_file output_file overwrite) = Runs lines ret wrote"
    and "get_media_duration e input_file = Some duration"
    and "flt (Fin 0) duration"
  shows "bars (snd (convert_media e input_file output_file overwrite quiet w))
           = bars w @ [(duration, updates (run_bar duration lines))]
         \<and> fle (last_t (consume duration \<lparr>last_t = Fin 0, updates = []\<rparr> ls))
               (last_t (consume duration \<lparr>last_t = Fin 0, updates = []\<rparr> (ls @ ls2)))
         \<and> fle (last_t (consume duration \<lparr>last_t = Fin 0, updates = []\<rparr> ls)) duration
         \<and> (advance duration st t = st
             \<or> (\<exists>t0. t = Some t0 \<and> flt (last_t st) (pymin t0 duration)
                     \<and> advance duration st t
                         = \<lparr>last_t = pymin t0 duration,
                            updates = updates st @ [fsub (pymin t0 duration) (last_t st)]\<rparr>))
         \<and> last_t (run_bar duration lines)
             = last_t (consume duration \<lparr>last_t = Fin 0, updates = []\<rparr> lines)
         \<and> updates (run_bar duration lines)
             = updates (consume duration \<lparr>last_t = Fin 0, updates = []\<rparr> lines)
               @ (if flt (last_t (consume duration \<lparr>last_t = Fin 0, updates = []\<rparr> lines)) duration
                  then [fsub duration
                          (last_t (consume duration \<lparr>last_t = Fin 0, updates = []\<rparr> lines))]
                  else [])"
proof -
  let ?s0 = "\<lparr>last_t = Fin 0, updates = []\<rparr>"
  have t0: "tracked duration ?s0"
    using assms(5) by (rule tracked_init)
  have bar: "bars (snd (convert_media e input_file output_file overwrite quiet w))
      = bars w @ [(duration, updates (run_bar duration lines))]"
    using assms(1-4) positive_truthy [OF assms(5)] by (rule convert_media_bar)
  have t1: "tracked duration (consume duration ?s0 ls)"
    using consume_tracked [OF t0] by simp
  have mono: "fle (last_t (consume duration ?s0 ls)) (last_t (consume duration ?s0 (ls @ ls2)))"
    using consume_append [of duration ?s0 ls ls2] consume_tracked [OF t1, of ls2]
    by (auto simp: fle_def)
  have bound: "fle (last_t (consume duration ?s0 ls)) duration"
    using t1 by (simp add: tracked_def)
  from bar mono bound advance_clamps [of duration st t]
    finish_update [of duration "consume duration ?s0 lines"]
  show ?thesis
    unfolding run_bar_def by blast
qed

theorem known_duration_progress_witness:
  "check_ffmpeg (test_env True ''10.000000\<newline>'' (Runs test_lines 0 True) []) = None
   \<and> get_media_duration (test_env True ''10.000000\<newline>'' (Runs test_lines 0 True) []) ''input.wav''
       = Some (Fin 10)
   \<and> flt (Fin 0) (Fin 10)
   \<and> bars (snd (convert_media (test_env True ''10.000000\<newline>'' (Runs test_lines 0 True) [])
        ''input.wav'' ''output.wav'' True True (test_world {''input.wav''} {})))
       = [(Fin 10, [Fin 5, Fin 5])]
   \<and> last_t (consume (Fin 10) \<lparr>last_t = Fin 0, updates = []\<rparr> (take 1 test_lines)) = Fin 5
   \<and> last_t (run_bar (Fin 10) test_lines) = Fin 10
   \<and> indicator [Fin 5, Fin 5] = Fin 10"
proof -
  let ?e = "test_env True ''10.000000\<newline>'' (Runs test_lines 0 True) []"
  let ?w = "test_world {''input.wav''} {}"
  have h1: "check_ffmpeg ?e = None"
    by (simp add: check_ffmpeg_def test_env_def)
  have h2: "True \<or> (''output.wav'' \<notin> files ?w \<and> ''output.wav'' \<notin> dirs ?w)"
    by simp
  have h3: "popen ?e (command ''input.wav'' ''output.wav'' True) = Runs test_lines 0 True"
    by (simp add: test_env_def)
  have h4: "get_media_duration ?e ''input.wav'' = Some (Fin 10)"
    by (simp add: get_media_duration_def test_env_def str_defs num_defs
          cong: let_weak_cong old.prod.case_cong_weak)
  have h5: "flt (Fin 0) (Fin 10)"
    by simp
  have r: "run_bar (Fin 10) test_lines = \<lparr>last_t = Fin 10, updates = [Fin 5, Fin 5]\<rparr>"
    and c: "last_t (consume (Fin 10) \<lparr>last_t = Fin 0, updates = []\<rparr> (take 1 test_lines)) = Fin 5"
    and i: "indicator [Fin 5, Fin 5] = Fin 10"
    by (simp_all add: test_lines_def loop_defs str_defs num_defs
          cong: let_weak_cong old.prod.case_cong_weak)
  from known_duration_progress [OF h1 h2 h3 h4 h5, where quiet = True]
  have "bars (snd (convert_media ?e ''input.wav'' ''output.wav'' True True ?w))
      = bars ?w @ [(Fin 10, updates (run_bar (Fin 10) test_lines))]"
    by blast
  then have b: "bars (snd (convert_media ?e ''input.wav'' ''output.wav'' True True ?w))
      = [(Fin 10, [Fin 5, Fin 5])]"
    by (simp add: r test_world_def)
  from h1 h4 h5 b c r i show ?thesis by simp
qed

text \<open>
  C1 fails for a negative duration: \<open>ffprobe\<close> prints \<open>-1.0\<close>, the process prints nothing;
  the bar of total \<open>-1\<close> receives no update, so that its counter stays at zero, above
  the duration. It also fails for a positive duration, by rounding: with the duration
  \<open>487.011423\<close> and the timestamps \<open>175388343\<close> and \<open>177921683\<close> microseconds, the three
  updates add up to \<open>487.01142300000004\<close>, above the duration.
\<close>

theorem known_duration_progress_counterexample:
  "get_media_duration (test_env True ''-1.0'' (Runs [] 0 True) []) ''a.wav'' = Some (Fin (- 1))
   \<and> truthy (Some (Fin (- 1)))
   \<and> bars (snd (convert_media (test_env True ''-1.0'' (Runs [] 0 True) [])
        ''a.wav'' ''a.mp3'' False True (test_world {''a.wav''} {})))
       = [(Fin (- 1), [])]
   \<and> indicator [] = Fin 0
   \<and> flt (Fin (- 1)) (last_t (run_bar (Fin (- 1)) []))
   \<and> get_media_duration
        (test_env True ''487.011423''
           (Runs [''out_time_ms=175388343\<newline>'', ''out_time_ms=177921683\<newline>''] 0 True) [])
        ''a.wav''
       = Some (Fin (8567595559171777 / 17592186044416))
   \<and> flt (Fin 0) (Fin (8567595559171777 / 17592186044416))
   \<and> bars (snd (convert_media
        (test_env True ''487.011423''
           (Runs [''out_time_ms=175388343\<newline>'', ''out_time_ms=177921683\<newline>''] 0 True) [])
        ''a.wav'' ''a.mp3'' False True (test_world {''a.wav''} {})))
       = [(Fin (8567595559171777 / 17592186044416),
           [Fin (6170928720155693 / 35184372088832), Fin (44566988593761 / 17592186044416),
            Fin (2718782105250085 / 8796093022208)])]
   \<and> indicator [Fin (6170928720155693 / 35184372088832), Fin (44566988593761 / 17592186044416),
         Fin (2718782105250085 / 8796093022208)]
       = Fin (4283797779585889 / 8796093022208)
   \<and> flt (Fin (8567595559171777 / 17592186044416)) (Fin (4283797779585889 / 8796093022208))"
proof -
  let ?e = "test_env True ''-1.0'' (Runs [] 0 True) []"
  let ?ls = "[''out_time_ms=175388343\<newline>'', ''out_time_ms=177921683\<newline>'']"
  let ?f = "test_env True ''487.011423'' (Runs ?ls 0 True) []"
  let ?w = "test_world {''a.wav''} {}"
  have d: "get_media_duration ?e ''a.wav'' = Some (Fin (- 1))"
    and d': "get_media_duration ?f ''a.wav'' = Some (Fin (8567595559171777 / 17592186044416))"
    by (simp_all add: get_media_duration_def test_env_def str_defs num_defs
          cong: let_weak_cong old.prod.case_cong_weak)
  have r: "run_bar (Fin (- 1)) [] = \<lparr>last_t = Fin 0, updates = []\<rparr>"
    by (simp add: loop_defs)
  have r': "run_bar (Fin (8567595559171777 / 17592186044416)) ?ls
      = \<lparr>last_t = Fin (6260062697343215 / 35184372088832),
         updates = [Fin (6170928720155693 / 35184372088832), Fin (44566988593761 / 17592186044416),
           Fin (2718782105250085 / 8796093022208)]\<rparr>"
    by (simp add: loop_defs str_defs num_defs cong: let_weak_cong old.prod.case_cong_weak)
  have i: "indicator [Fin (6170928720155693 / 35184372088832), Fin (44566988593761 / 17592186044416),
         Fin (2718782105250085 / 8796093022208)]
       = Fin (4283797779585889 / 8796093022208)"
    by (simp add: indicator_def fl_defs)
  have b: "bars (snd (convert_media ?e ''a.wav'' ''a.mp3'' False True ?w)) = [(Fin (- 1), [])]"
    using convert_media_bar [of ?e False "''a.mp3''" ?w "''a.wav''" "[]" 0 True "Fin (- 1)" True] d
    by (simp add: r check_ffmpeg_def test_env_def test_world_def)
  have b': "bars (snd (convert_media ?f ''a.wav'' ''a.mp3'' False True ?w))
       = [(Fin (8567595559171777 / 17592186044416),
           [Fin (6170928720155693 / 35184372088832), Fin (44566988593761 / 17592186044416),
            Fin (2718782105250085 / 8796093022208)])]"
    using convert_media_bar [of ?f False "''a.mp3''" ?w "''a.wav''" ?ls 0 True
        "Fin (8567595559171777 / 17592186044416)" True] d'
    by (simp add: r' check_ffmpeg_def test_env_def test_world_def)
  from d d' r b b' i show ?thesis
    by (simp add: indicator_def)
qed

subsection \<open>Exceptions and launches of \<open>convert_media\<close>\<close>

lemma convert_media_missing:
  "check_ffmpeg e = Some x \<Longrightarrow> convert_media e i out ov q w = (Some x, w)"
  by (simp add: convert_media_def)

lemma convert_media_skip:
  "check_ffmpeg e = None \<Longrightarrow> out \<in> files w \<or> out \<in> dirs w \<Longrightarrow>
   convert_media e i out False q w
     = (None, if q then w else print (''Skipping (exists): '' @ out) w)"
  by (auto simp: convert_media_def)

lemma convert_media_effect:
  assumes "check_ffmpeg e = None"
  shows "fst (convert_media e i out ov q w) = None
    \<and> files w \<subseteq> files (snd (convert_media e i out ov q w))
    \<and> dirs (snd (convert_media e i out ov q w)) = dirs w
    \<and> moved (snd (convert_media e i out ov q w)) = moved w
    \<and> launches (snd (convert_media e i out ov q w))
        = (if (out \<in> files w \<or> out \<in> dirs w) \<and> \<not> ov then launches w
           else launches w @ [command i out ov])"
  using assms
  by (auto simp: convert_media_def Let_def launched_def written_def report_def print_def
           split: outcome.splits option.splits)


lemma convert_all_step:
  "check_ffmpeg e = None \<Longrightarrow>
   convert_all e outf ext ov q (src # rest) conv w
     = convert_all e outf ext ov q rest (conv @ [src])
         (snd (convert_media e src (join outf (splitext_root (basename src) @ ext)) ov q w))"
  using convert_media_effect [of e src "join outf (splitext_root (basename src) @ ext)" ov q w]
  by (cases "convert_media e src (join outf (splitext_root (basename src) @ ext)) ov q w")
     (simp add: Let_def)

lemma convert_all_returns:
  "check_ffmpeg e = None \<Longrightarrow>
   \<exists>w'. convert_all e outf ext ov q srcs conv w = (None, conv @ srcs, w')
        \<and> files w \<subseteq> files w' \<and> dirs w' = dirs w \<and> moved w' = moved w"
proof (induction srcs arbitrary: conv w)
  case Nil
  then show ?case by simp
next
  case (Cons src rest)
  let ?w1 = "snd (convert_media e src (join outf (splitext_root (basename src) @ ext)) ov q w)"
  from Cons.IH [OF Cons.prems, of "conv @ [src]" ?w1]
  obtain w' where "convert_all e outf ext ov q rest (conv @ [src]) ?w1 = (None, (conv @ [src]) @ rest, w')"
    and "files ?w1 \<subseteq> files w'" and "dirs w' = dirs ?w1" and "moved w' = moved ?w1"
    by blast
  with convert_media_effect [OF Cons.prems, of src "join outf (splitext_root (basename src) @ ext)" ov q w]
    convert_all_step [OF Cons.prems, of outf ext ov q src rest conv w]
  show ?case by auto
qed





text \<open>
  C4 (amended). When both tools are found: a call with \<open>overwrite=False\<close> and an
  existing target returns after printing the skip line (nothing when quiet), with no
  call of \<open>Popen\<close> and nothing else changed; a call with \<open>overwrite=True\<close> calls \<open>Popen\<close>
  once, with the \<open>-y\<close> command, whether the target exists or not. Without the tools a
  call with an existing target and \<open>overwrite=False\<close> still launches nothing.
\<close>

theorem skip_before_launch:
  "(check_ffmpeg e = None \<longrightarrow> output_file \<in> files w \<or> output_file \<in> dirs w \<longrightarrow>
      convert_media e input_file output_file False quiet w
        = (None, if quiet then w else print (''Skipping (exists): '' @ output_file) w))
   \<and> (output_file \<in> files w \<or> output_file \<in> dirs w \<longrightarrow>
        launches (snd (convert_media e input_file output_file False quiet w)) = launches w)
   \<and> (check_ffmpeg e = None \<longrightarrow>
        launches (snd (convert_media e input_file output_file True quiet w))
          = launches w @ [command input_file output_file True])"
proof -
  have "launches (snd (convert_media e input_file output_file False quiet w)) = launches w"
    if "output_file \<in> files w \<or> output_file \<in> dirs w"
  proof (cases "check_ffmpeg e")
    case None
    with that show ?thesis
      by (simp add: convert_media_skip print_def)
  next
    case (Some x)
    then show ?thesis by (simp add: convert_media_missing)
  qed
  then show ?thesis
    using convert_media_skip [of e output_file w input_file quiet]
      convert_media_effect [of e input_file output_file True quiet w]
    by auto
qed

theorem skip_before_launch_witness:
  "check_ffmpeg (test_env True ''10.0'' (Runs test_lines 0 True) []) = None
   \<and> ''out/a.mp3'' \<in> files (test_world {''in/a.wav'', ''out/a.mp3''} {''in'', ''out''})
   \<and> convert_media (test_env True ''10.0'' (Runs test_lines 0 True) [])
        ''in/a.wav'' ''out/a.mp3'' False False (test_world {''in/a.wav'', ''out/a.mp3''} {''in'', ''out''})
       = (None, print ''Skipping (exists): out/a.mp3''
                  (test_world {''in/a.wav'', ''out/a.mp3''} {''in'', ''out''}))
   \<and> launches (snd (convert_media (test_env True ''10.0'' (Runs test_lines 0 True) [])
        ''in/a.wav'' ''out/a.mp3'' True False (test_world {''in/a.wav'', ''out/a.mp3''} {''in'', ''out''})))
       = [[''ffmpeg'', ''-hide_banner'', ''-loglevel'', ''error'', ''-progress'', ''pipe:1'',
           ''-nostats'', ''-y'', ''-i'', ''in/a.wav'', ''out/a.mp3'']]"
  using skip_before_launch [of "test_env True ''10.0'' (Runs test_lines 0 True) []"
      "''out/a.mp3''" "test_world {''in/a.wav'', ''out/a.mp3''} {''in'', ''out''}" "''in/a.wav''" False]
  by (simp add: check_ffmpeg_def test_env_def test_world_def command_def
       cong: let_weak_cong old.prod.case_cong_weak)

text \<open>
  C4 fails when \<open>ffmpeg\<close> is not found: with \<open>overwrite=False\<close> and an existing target the
  call raises and prints no skip line, and with \<open>overwrite=True\<close> no process is launched.
\<close>

theorem skip_before_launch_counterexample:
  "''out/a.mp3'' \<in> files (test_world {''in/a.wav'', ''out/a.mp3''} {''in'', ''out''})
   \<and> fst (convert_media (test_env False ''10.0'' (Runs test_lines 0 True) [])
        ''in/a.wav'' ''out/a.mp3'' False False (test_world {''in/a.wav'', ''out/a.mp3''} {''in'', ''out''}))
       = Some (EnvironmentError ''ffmpeg is not installed or not found in PATH.'')
   \<and> console (snd (convert_media (test_env False ''10.0'' (Runs test_lines 0 True) [])
        ''in/a.wav'' ''out/a.mp3'' False False (test_world {''in/a.wav'', ''out/a.mp3''} {''in'', ''out''})))
       = []
   \<and> launches (snd (convert_media (test_env False ''10.0'' (Runs test_lines 0 True) [])
        ''in/a.wav'' ''out/a.mp3'' True False (test_world {''in/a.wav'', ''out/a.mp3''} {''in'', ''out''})))
       = []"
  by (simp add: convert_media_def check_ffmpeg_def test_env_def test_world_def
       cong: let_weak_cong old.prod.case_cong_weak)

lemma bars_launched_written [simp]:
  "bars (written out wrote (launched cmd w)) = bars w"
  by (simp add: written_def launched_def)

text \<open>
  C10. A probed duration of exactly zero is treated as an unknown duration: the call
  gives the same result as in an environment that differs only in that the probe
  fails; when the process runs, the result is the report of its return code, and no
  progress bar is driven.
\<close>

theorem zero_duration_is_unknown:
  assumes "get_media_duration e input_file = Some (Fin 0)"
  shows "get_media_duration (e\<lparr>ffprobe := (\<lambda>p. None)\<rparr>) input_file = None
    \<and> convert_media e input_file output_file overwrite quiet w
        = convert_media (e\<lparr>ffprobe := (\<lambda>p. None)\<rparr>) input_file output_file overwrite quiet w
    \<and> bars (snd (convert_media e input_file output_file overwrite quiet w)) = bars w
    \<and> (check_ffmpeg e = None \<longrightarrow> overwrite \<or> (output_file \<notin> files w \<and> output_file \<notin> dirs w) \<longrightarrow>
         popen e (command input_file output_file overwrite) = Runs lines ret wrote \<longrightarrow>
         convert_media e input_file output_file overwrite quiet w
           = (None, report input_file output_file quiet ret
                      (written output_file wrote
                         (launched (command input_file output_file overwrite) w))))"
  using assms
  by (auto simp: convert_media_def get_media_duration_def check_ffmpeg_def Let_def print_def
           launched_def written_def
           split: outcome.splits option.splits)

theorem zero_duration_is_unknown_witness:
  "get_media_duration (test_env True ''0.000000\<newline>'' (Runs test_lines 0 True) []) ''in/a.wav''
     = Some (Fin 0)
   \<and> convert_media (test_env True ''0.000000\<newline>'' (Runs test_lines 0 True) [])
        ''in/a.wav'' ''out/a.mp3'' False False (test_world {''in/a.wav''} {''in'', ''out''})
     = (None, print ''OK  in/a.wav -> out/a.mp3''
                (written ''out/a.mp3'' True
                   (launched (command ''in/a.wav'' ''out/a.mp3'' False)
                      (test_world {''in/a.wav''} {''in'', ''out''}))))
   \<and> bars (snd (convert_media (test_env True ''0.000000\<newline>'' (Runs test_lines 0 True) [])
        ''in/a.wav'' ''out/a.mp3'' False False (test_world {''in/a.wav''} {''in'', ''out''}))) = []"
  using zero_duration_is_unknown [of "test_env True ''0.000000\<newline>'' (Runs test_lines 0 True) []"
      "''in/a.wav''" "''out/a.mp3''" False False "test_world {''in/a.wav''} {''in'', ''out''}"
      test_lines 0 True]
  by (simp add: str_defs num_defs media_defs Let_def
       cong: let_weak_cong old.prod.case_cong_weak)

text \<open>
  C7. When the input folder is not an existing directory, \<open>convert_folder\<close> prints one
  line and exits with status 1; nothing else has changed: no directory created, no
  file written or moved, no process launched.
\<close>

theorem missing_input_folder:
  assumes "input_folder \<notin> dirs w"
  shows "convert_folder e input_folder output_folder output_ext recursive overwrite quiet
           archive_folder w
         = (Some (SystemExit 1), w\<lparr>console := console w @ [''Input folder does not exist: '' @ input_folder]\<rparr>)
    \<and> fst (convert_folder e input_folder output_folder output_ext recursive overwrite quiet
             archive_folder w) \<noteq> Some (SystemExit 0)"
  using assms by (simp add: convert_folder_def print_def)

theorem missing_input_folder_witness:
  "''in'' \<notin> dirs (test_world {} {})
   \<and> convert_folder (test_env True ''10.0'' (Runs test_lines 0 True) [Regular ''a.wav''])
        ''in'' ''out'' ''.mp3'' False False False (Some ''arch'') (test_world {} {})
     = (Some (SystemExit 1),
        \<lparr>files = {}, dirs = {}, console = [''Input folder does not exist: in''], launches = [],
         bars = [], moved = []\<rparr>)"
  using missing_input_folder [of "''in''" "test_world {} {}"
      "test_env True ''10.0'' (Runs test_lines 0 True) [Regular ''a.wav'']" "''out''" "''.mp3''"
      False False False "Some ''arch''"]
  by (simp add: test_world_def
       cong: let_weak_cong old.prod.case_cong_weak)

subsection \<open>The batch\<close>

lemma fold_move:
  "moved (foldl (\<lambda>v src. move src (f src) v) w cs) = moved w @ map (\<lambda>s. (s, f s)) cs
   \<and> dirs (foldl (\<lambda>v src. move src (f src) v) w cs) = dirs w
   \<and> console (foldl (\<lambda>v src. move src (f src) v) w cs) = console w
   \<and> launches (foldl (\<lambda>v src. move src (f src) v) w cs) = launches w"
  by (induction cs arbitrary: w) (simp_all add: move_def)

lemma archive_effect:
  "archive_folder \<in> dirs (archive archive_folder cs quiet w)
   \<and> moved (archive archive_folder cs quiet w)
       = moved w @ map (\<lambda>s. (s, join archive_folder (basename s))) cs
   \<and> launches (archive archive_folder cs quiet w) = launches w
   \<and> console (archive archive_folder cs quiet w)
       = console w @ (if quiet then []
                      else [''Moved '' @ str_nat (length cs) @ '' file(s) to archive: ''
                            @ archive_folder])"
  using fold_move [of "\<lambda>s. join archive_folder (basename s)" "makedirs archive_folder w" cs]
  by (simp add: archive_def Let_def print_def makedirs_def)

text \<open>
  C3 (amended). When both tools are found: each step of the loop appends the source
  path after the call of \<open>convert_media\<close> for it, whatever the call has done; the loop
  ends with the list of the yielded files; with an archive folder, \<open>convert_folder\<close>
  makes it, moves every file of the list to its base name inside it and, unless quiet,
  prints the summary with the length of the list.
\<close>

theorem converted_list_and_archive:
  assumes "check_ffmpeg e = None"
  shows "convert_all e output_folder output_ext overwrite quiet (src # rest) conv v
           = convert_all e output_folder output_ext overwrite quiet rest (conv @ [src])
               (snd (convert_media e src
                       (join output_folder (splitext_root (basename src) @ output_ext))
                       overwrite quiet v))
    \<and> (\<exists>w1. convert_all e output_folder output_ext overwrite quiet
                (iter_media_files e input_folder recursive) [] (makedirs output_folder w)
              = (None, iter_media_files e input_folder recursive, w1)
            \<and> moved w1 = moved w
            \<and> (input_folder \<in> dirs w \<longrightarrow>
                 convert_folder e input_folder output_folder output_ext recursive overwrite
                     quiet (Some a) w
                   = (None, archive a (iter_media_files e input_folder recursive) quiet w1)
                 \<and> convert_folder e input_folder output_folder output_ext recursive overwrite
                     quiet None w
                   = (None, w1)))
    \<and> a \<in> dirs (archive a cs quiet w2)
    \<and> moved (archive a cs quiet w2) = moved w2 @ map (\<lambda>s. (s, join a (basename s))) cs
    \<and> console (archive a cs quiet w2)
        = console w2 @ (if quiet then []
                        else [''Moved '' @ str_nat (length cs) @ '' file(s) to archive: '' @ a])"
proof -
  obtain w1 where w1: "convert_all e output_folder output_ext overwrite quiet
        (iter_media_files e input_folder recursive) [] (makedirs output_folder w)
      = (None, [] @ iter_media_files e input_folder recursive, w1)"
      "moved w1 = moved (makedirs output_folder w)"
    using convert_all_returns [OF assms] by blast
  then have "moved w1 = moved w"
    by (simp add: makedirs_def)
  with w1 have "\<exists>w1. convert_all e output_folder output_ext overwrite quiet
                (iter_media_files e input_folder recursive) [] (makedirs output_folder w)
              = (None, iter_media_files e input_folder recursive, w1)
            \<and> moved w1 = moved w
            \<and> (input_folder \<in> dirs w \<longrightarrow>
                 convert_folder e input_folder output_folder output_ext recursive overwrite
                     quiet (Some a) w
                   = (None, archive a (iter_media_files e input_folder recursive) quiet w1)
                 \<and> convert_folder e input_folder output_folder output_ext recursive overwrite
                     quiet None w
                   = (None, w1))"
    by (intro exI [of _ w1]) (simp add: convert_folder_def)
  with convert_all_step [OF assms] archive_effect [of a cs quiet w2] show ?thesis
    by simp
qed

theorem converted_list_and_archive_witness:
  "check_ffmpeg (test_env True ''garbage'' (Runs [] 1 False) [Regular ''A.wav'', Regular ''B.txt''])
     = None
   \<and> iter_media_files (test_env True ''garbage'' (Runs [] 1 False) [Regular ''A.wav'', Regular ''B.txt''])
       ''in'' False = [''in/A.wav'']
   \<and> moved (snd (convert_folder
        (test_env True ''garbage'' (Runs [] 1 False) [Regular ''A.wav'', Regular ''B.txt''])
        ''in'' ''out'' ''.mp3'' False False False (Some ''arch'')
        (test_world {''in/A.wav'', ''in/B.txt''} {''in''})))
     = [(''in/A.wav'', ''arch/A.wav'')]
   \<and> console (snd (convert_folder
        (test_env True ''garbage'' (Runs [] 1 False) [Regular ''A.wav'', Regular ''B.txt''])
        ''in'' ''out'' ''.mp3'' False False False (Some ''arch'')
        (test_world {''in/A.wav'', ''in/B.txt''} {''in''})))
     = [''Error during conversion: in/A.wav -> out/A.mp3'',
        ''Moved 1 file(s) to archive: arch'']
   \<and> files (snd (convert_folder
        (test_env True ''garbage'' (Runs [] 1 False) [Regular ''A.wav'', Regular ''B.txt''])
        ''in'' ''out'' ''.mp3'' False False False (Some ''arch'')
        (test_world {''in/A.wav'', ''in/B.txt''} {''in''})))
     = {''arch/A.wav'', ''in/B.txt''}"
  using converted_list_and_archive
    [of "test_env True ''garbage'' (Runs [] 1 False) [Regular ''A.wav'', Regular ''B.txt'']"
      "''out''" "''.mp3''" False False "''in/A.wav''" "[]" "[]"
      "makedirs ''out'' (test_world {''in/A.wav'', ''in/B.txt''} {''in''})"
      "''in''" False "test_world {''in/A.wav'', ''in/B.txt''} {''in''}" "''arch''"
      "[''in/A.wav'']"]
  by (simp add: batch_defs str_defs num_defs media_defs Let_def str_nat.simps
       cong: let_weak_cong old.prod.case_cong_weak)

text \<open>
  C3 fails when \<open>ffmpeg\<close> is not found: the locator yields one file, the call of
  \<open>convert_media\<close> for it raises, the file is not appended, and \<open>convert_folder\<close> ends
  with the exception: the archive folder is not made and nothing is moved.
\<close>

theorem converted_list_and_archive_counterexample:
  "iter_media_files (test_env False ''10.0'' (Runs [] 0 True) [Regular ''A.wav''])
       ''in'' False = [''in/A.wav'']
   \<and> fst (snd (convert_all (test_env False ''10.0'' (Runs [] 0 True) [Regular ''A.wav''])
        ''out'' ''.mp3'' False False [''in/A.wav''] []
        (makedirs ''out'' (test_world {''in/A.wav''} {''in''})))) = []
   \<and> fst (convert_folder (test_env False ''10.0'' (Runs [] 0 True) [Regular ''A.wav''])
        ''in'' ''out'' ''.mp3'' False False False (Some ''arch'')
        (test_world {''in/A.wav''} {''in''}))
     = Some (EnvironmentError ''ffmpeg is not installed or not found in PATH.'')
   \<and> ''arch'' \<notin> dirs (snd (convert_folder (test_env False ''10.0'' (Runs [] 0 True) [Regular ''A.wav''])
        ''in'' ''out'' ''.mp3'' False False False (Some ''arch'')
        (test_world {''in/A.wav''} {''in''})))
   \<and> moved (snd (convert_folder (test_env False ''10.0'' (Runs [] 0 True) [Regular ''A.wav''])
        ''in'' ''out'' ''.mp3'' False False False (Some ''arch'')
        (test_world {''in/A.wav''} {''in''}))) = []
   \<and> console (snd (convert_folder (test_env False ''10.0'' (Runs [] 0 True) [Regular ''A.wav''])
        ''in'' ''out'' ''.mp3'' False False False (Some ''arch'')
        (test_world {''in/A.wav''} {''in''}))) = []"
  by (simp add: batch_defs str_defs media_defs Let_def
       cong: let_weak_cong old.prod.case_cong_weak)





subsection \<open>The progress lines\<close>

lemma takeWhile_sep: "c \<notin> set a \<Longrightarrow> takeWhile (\<lambda>x. x \<noteq> c) (a @ c # b) = a"
  by (induction a) auto

lemma dropWhile_sep: "c \<notin> set a \<Longrightarrow> dropWhile (\<lambda>x. x \<noteq> c) (a @ c # b) = c # b"
  by (induction a) auto

lemma startswith_key:
  assumes "CHR ''='' \<notin> set k"
  shows "startswith l (k @ ''='') \<longleftrightarrow> line_key l = Some k"
proof
  assume "startswith l (k @ ''='')"
  then obtain r where l: "l = k @ CHR ''='' # r"
    by (auto simp: startswith_prefix prefix_def)
  with assms show "line_key l = Some k"
    by (simp add: line_key_def takeWhile_sep)
next
  assume "line_key l = Some k"
  then have mem: "CHR ''='' \<in> set l" and k: "takeWhile (\<lambda>c. c \<noteq> CHR ''='') l = k"
    by (auto simp: line_key_def split: if_splits)
  from mem have "dropWhile (\<lambda>c. c \<noteq> CHR ''='') l \<noteq> []"
    by simp
  then obtain r where "dropWhile (\<lambda>c. c \<noteq> CHR ''='') l = CHR ''='' # r"
    using hd_dropWhile [of "\<lambda>c. c \<noteq> CHR ''=''" l]
    by (cases "dropWhile (\<lambda>c. c \<noteq> CHR ''='') l") auto
  with k have "l = k @ CHR ''='' # r"
    using takeWhile_dropWhile_id [of "\<lambda>c. c \<noteq> CHR ''=''" l] by simp
  then show "startswith l (k @ ''='')"
    by (simp add: startswith_prefix)
qed

lemma key_ms: "startswith l ''out_time_ms='' \<longleftrightarrow> line_key l = Some ''out_time_ms''"
  using startswith_key [of "''out_time_ms''" l] by simp

lemma key_time: "startswith l ''out_time='' \<longleftrightarrow> line_key l = Some ''out_time''"
  using startswith_key [of "''out_time''" l] by simp

lemma key_progress: "startswith l ''progress='' \<longleftrightarrow> line_key l = Some ''progress''"
  using startswith_key [of "''progress''" l] by simp

lemma split_on_none: "c \<notin> set a \<Longrightarrow> split_on c a = [a]"
  by (simp add: split_on.simps)

lemma split_on_first: "c \<notin> set a \<Longrightarrow> split_on c (a @ c # b) = a # split_on c b"
  by (subst split_on.simps) (simp add: takeWhile_sep dropWhile_sep)

lemma bits_bounds: "0 < n \<Longrightarrow> 2 ^ (bits n - 1) \<le> n \<and> n < 2 ^ bits n"
proof (induction n rule: bits.induct)
  case (1 n)
  show ?case
  proof (cases "n div 2 = 0")
    case True
    with "1.prems" have "n = 1" by presburger
    then show ?thesis by (simp add: bits.simps)
  next
    case False
    with "1.IH" "1.prems"
    have ih: "2 ^ (bits (n div 2) - 1) \<le> n div 2" "n div 2 < 2 ^ bits (n div 2)"
      by simp_all
    from False have pos: "0 < bits (n div 2)"
      by (subst bits.simps) simp
    have b: "bits n = Suc (bits (n div 2))"
      using "1.prems" by (subst bits.simps) simp
    from pos have "(2::nat) ^ bits (n div 2) = 2 * 2 ^ (bits (n div 2) - 1)"
      by (cases "bits (n div 2)") simp_all
    with ih(1) have "2 ^ bits (n div 2) \<le> 2 * (n div 2)"
      by simp
    then have lo: "2 ^ bits (n div 2) \<le> n"
      by presburger
    from ih(2) have "n < 2 * 2 ^ bits (n div 2)"
      by presburger
    with lo b show ?thesis by simp
  qed
qed

lemma round_even_int: "round_even (of_int m) = m"
  by (simp add: round_even_def)

lemma round_even_scaled: "round_even (of_int k * 2 ^ j) = k * 2 ^ j"
  using round_even_int [of "k * 2 ^ j"] by simp

lemma pow2_neg: "pow2 (- int j) = 1 / 2 ^ j"
  by (auto simp: pow2_def)

lemma nearest_int:
  assumes "0 < k" "k < 2 ^ 53"
  shows "nearest (of_int k) = of_int k"
proof -
  let ?B = "bits (nat k)"
  have pos: "0 < ?B"
    using assms(1) by (subst bits.simps) simp
  have "nat k < 2 ^ 53"
    using assms by (simp add: nat_less_iff)
  moreover from bits_bounds [of "nat k"] assms(1) have "2 ^ (?B - 1) \<le> nat k"
    by simp
  ultimately have "(2::nat) ^ (?B - 1) < 2 ^ 53"
    by (rule order.strict_trans1 [rotated])
  then have "?B - 1 < 53"
    by (rule power_less_imp_less_exp [rotated]) simp
  with pos have le: "?B \<le> 53"
    by simp
  have fl2: "floor_log2 (of_int k) = int ?B - 1"
    using assms(1) by (simp add: floor_log2_def)
  have ex: "max (int ?B - 1) (- 1022) - 52 = - int (53 - ?B)"
    using pos le by simp
  show ?thesis
    unfolding nearest_def fl2 ex pow2_neg by (simp add: round_even_scaled)
qed

lemma int_to_float_exact:
  assumes "\<bar>n\<bar> < 2 ^ 53"
  shows "int_to_float n = Some (of_int n)"
proof (cases "n = 0")
  case True
  then show ?thesis by (simp add: int_to_float_def fl_def)
next
  case False
  with assms have n: "nearest (of_int \<bar>n\<bar>) = of_int \<bar>n\<bar>"
    by (intro nearest_int) simp_all
  from assms have "(of_int \<bar>n\<bar> :: rat) < 2 ^ 53"
    by (metis of_int_less_iff of_int_numeral of_int_power)
  also have "(2::rat) ^ 53 \<le> 2 ^ 1024"
    by (rule power_increasing) simp_all
  finally have "\<not> pow2 1024 \<le> of_int \<bar>n\<bar>"
    by (simp add: pow2_def)
  with n False show ?thesis
    by (cases "n < 0") (simp_all add: int_to_float_def fl_def abs_if)
qed

lemma line_time_ms:
  "line_time (''out_time_ms='' @ v)
     = (case py_int v of
          None \<Rightarrow> None
        | Some ms \<Rightarrow>
            (case int_to_float ms of None \<Rightarrow> None | Some x \<Rightarrow> Some (fl (x / 1000000))))"
  by (simp add: line_time_def startswith_prefix after_first_def)

lemma line_time_hms:
  assumes "CHR '':'' \<notin> set h" "CHR '':'' \<notin> set m" "CHR '':'' \<notin> set s"
    and "strip (h @ '':'' @ m @ '':'' @ s) = h @ '':'' @ m @ '':'' @ s"
    and "py_int h = Some hh" "py_int m = Some mm" "py_float s = Some sec"
  shows "line_time (''out_time='' @ h @ '':'' @ m @ '':'' @ s)
     = (case int_to_float (60 * (mm + 60 * hh)) of
          None \<Rightarrow> None
        | Some y \<Rightarrow> Some (fadd sec (Fin y)))"
proof -
  have "split_on CHR '':'' (h @ '':'' @ m @ '':'' @ s) = [h, m, s]"
    using assms(1-3) by (simp add: split_on_first split_on_none)
  with assms(4-7) show ?thesis
    by (simp add: line_time_def startswith_prefix parse_out_time_def after_first_def)
qed

lemma end_line: "is_end l \<Longrightarrow> l \<noteq> [] \<and> line_time l = None"
  by (auto simp: is_end_def line_time_def key_ms key_time key_progress)

lemma consume_end:
  "is_end (strip raw_line) \<Longrightarrow> consume duration st (raw_line # rest) = st"
  using end_line [of "strip raw_line"] by (simp add: advance_def)

text \<open>
  C5. A line \<open>out_time_ms=<integer>\<close> gives the integer, as a float, divided by 1000000;
  a line \<open>out_time=H:M:S\<close> gives \<open>S + 60 * (M + 60 * H)\<close>, that is hours * 3600 + minutes *
  60 + seconds. Both are float results: the integer is converted to a float, which
  is exact below \<open>2 ^ 53\<close> and fails for an integer too large for a float (no timestamp
  then), and the quotient and the sum are rounded. The two examples of the
  specification give exactly 5 and 83.5. A line that starts with \<open>progress=\<close> and
  contains \<open>end\<close>, such as \<open>progress=end\<close>, gives no timestamp and ends the loop in every
  state: the lines after it are not consumed.
\<close>

theorem progress_line_parsing:
  "(py_int v = Some ms \<longrightarrow>
      line_time (''out_time_ms='' @ v)
        = (case int_to_float ms of None \<Rightarrow> None | Some x \<Rightarrow> Some (fl (x / 1000000))))
   \<and> (py_int v = Some ms \<and> \<bar>ms\<bar> < 2 ^ 53 \<longrightarrow>
        line_time (''out_time_ms='' @ v) = Some (fl (of_int ms / 1000000)))
   \<and> (CHR '':'' \<notin> set h \<and> CHR '':'' \<notin> set m \<and> CHR '':'' \<notin> set s
        \<and> strip (h @ '':'' @ m @ '':'' @ s) = h @ '':'' @ m @ '':'' @ s
        \<and> py_int h = Some hh \<and> py_int m = Some mm \<and> py_float s = Some sec \<longrightarrow>
      line_time (''out_time='' @ h @ '':'' @ m @ '':'' @ s)
        = (case int_to_float (60 * (mm + 60 * hh)) of
             None \<Rightarrow> None
           | Some y \<Rightarrow> Some (fadd sec (Fin y))))
   \<and> (CHR '':'' \<notin> set h \<and> CHR '':'' \<notin> set m \<and> CHR '':'' \<notin> set s
        \<and> strip (h @ '':'' @ m @ '':'' @ s) = h @ '':'' @ m @ '':'' @ s
        \<and> py_int h = Some hh \<and> py_int m = Some mm \<and> py_float s = Some (Fin ss)
        \<and> \<bar>60 * (mm + 60 * hh)\<bar> < 2 ^ 53 \<longrightarrow>
      line_time (''out_time='' @ h @ '':'' @ m @ '':'' @ s)
        = Some (fl (of_int hh * 3600 + of_int mm * 60 + ss)))
   \<and> line_time ''out_time_ms=5000000'' = Some (Fin 5)
   \<and> line_time ''out_time=00:01:23.500000'' = Some (Fin (167 / 2))
   \<and> is_end ''progress=end''
   \<and> (is_end (strip raw_line) \<longrightarrow>
        line_time (strip raw_line) = None
        \<and> consume duration st (raw_line # rest) = st)"
proof -
  have ms: "py_int v = Some ms \<longrightarrow>
      line_time (''out_time_ms='' @ v)
        = (case int_to_float ms of None \<Rightarrow> None | Some x \<Rightarrow> Some (fl (x / 1000000)))"
    using line_time_ms [of v] by simp
  have ms': "py_int v = Some ms \<and> \<bar>ms\<bar> < 2 ^ 53 \<longrightarrow>
        line_time (''out_time_ms='' @ v) = Some (fl (of_int ms / 1000000))"
    using line_time_ms [of v] int_to_float_exact [of ms] by simp
  have gen: "CHR '':'' \<notin> set h \<and> CHR '':'' \<notin> set m \<and> CHR '':'' \<notin> set s
        \<and> strip (h @ '':'' @ m @ '':'' @ s) = h @ '':'' @ m @ '':'' @ s
        \<and> py_int h = Some hh \<and> py_int m = Some mm \<and> py_float s = Some sec \<longrightarrow>
      line_time (''out_time='' @ h @ '':'' @ m @ '':'' @ s)
        = (case int_to_float (60 * (mm + 60 * hh)) of
             None \<Rightarrow> None
           | Some y \<Rightarrow> Some (fadd sec (Fin y)))"
    using line_time_hms [of h m s hh mm sec] by blast
  have sum: "ss + of_int (60 * (mm + 60 * hh)) = of_int hh * 3600 + of_int mm * 60 + ss"
    by (simp add: algebra_simps)
  have hms: "CHR '':'' \<notin> set h \<and> CHR '':'' \<notin> set m \<and> CHR '':'' \<notin> set s
        \<and> strip (h @ '':'' @ m @ '':'' @ s) = h @ '':'' @ m @ '':'' @ s
        \<and> py_int h = Some hh \<and> py_int m = Some mm \<and> py_float s = Some (Fin ss)
        \<and> \<bar>60 * (mm + 60 * hh)\<bar> < 2 ^ 53 \<longrightarrow>
      line_time (''out_time='' @ h @ '':'' @ m @ '':'' @ s)
        = Some (fl (of_int hh * 3600 + of_int mm * 60 + ss))"
  proof (intro impI, elim conjE)
    assume a: "CHR '':'' \<notin> set h" "CHR '':'' \<notin> set m" "CHR '':'' \<notin> set s"
      "strip (h @ '':'' @ m @ '':'' @ s) = h @ '':'' @ m @ '':'' @ s"
      "py_int h = Some hh" "py_int m = Some mm" "py_float s = Some (Fin ss)"
      and b: "\<bar>60 * (mm + 60 * hh)\<bar> < 2 ^ 53"
    have "line_time (''out_time='' @ h @ '':'' @ m @ '':'' @ s)
        = Some (fadd (Fin ss) (Fin (of_int (60 * (mm + 60 * hh)))))"
      using line_time_hms [OF a] int_to_float_exact [OF b] by simp
    also have "fadd (Fin ss) (Fin (of_int (60 * (mm + 60 * hh))))
        = fl (ss + of_int (60 * (mm + 60 * hh)))"
      by (simp only: fadd.simps)
    finally show "line_time (''out_time='' @ h @ '':'' @ m @ '':'' @ s)
        = Some (fl (of_int hh * 3600 + of_int mm * 60 + ss))"
      by (simp only: sum)
  qed
  have ex1: "line_time ''out_time_ms=5000000'' = Some (Fin 5)"
    using line_time_ms [of "''5000000''"]
    by (simp add: num_defs str_defs cong: let_weak_cong old.prod.case_cong_weak)
  have ex2: "line_time ''out_time=00:01:23.500000'' = Some (Fin (167 / 2))"
    using line_time_hms [of "''00''" "''01''" "''23.500000''" 0 1 "Fin (47 / 2)"]
    by (simp add: num_defs str_defs cong: let_weak_cong old.prod.case_cong_weak)
  have ex3: "is_end ''progress=end''"
    by (simp add: is_end_def startswith_prefix)
  from ms ms' gen hms ex1 ex2 ex3 end_line [of "strip raw_line"]
    consume_end [of raw_line duration st rest]
  show ?thesis by blast
qed

theorem progress_line_parsing_witness:
  "py_int ''5000000'' = Some 5000000 \<and> \<bar>5000000 :: int\<bar> < 2 ^ 53
   \<and> line_time (''out_time_ms='' @ ''5000000'') = Some (fl (5000000 / 1000000))
   \<and> fl (5000000 / 1000000) = Fin 5
   \<and> py_int ''00'' = Some 0 \<and> py_int ''01'' = Some 1 \<and> py_float ''23.500000'' = Some (Fin (47 / 2))
   \<and> strip (''00'' @ '':'' @ ''01'' @ '':'' @ ''23.500000'') = ''00'' @ '':'' @ ''01'' @ '':'' @ ''23.500000''
   \<and> line_time (''out_time='' @ ''00'' @ '':'' @ ''01'' @ '':'' @ ''23.500000'')
       = (case int_to_float (60 * (1 + 60 * 0)) of
            None \<Rightarrow> None
          | Some y \<Rightarrow> Some (fadd (Fin (47 / 2)) (Fin y)))
   \<and> int_to_float (60 * (1 + 60 * 0)) = Some 60
   \<and> \<bar>60 * (1 + 60 * 0) :: int\<bar> < 2 ^ 53
   \<and> line_time (''out_time='' @ ''00'' @ '':'' @ ''01'' @ '':'' @ ''23.500000'')
       = Some (fl (0 * 3600 + 1 * 60 + 47 / 2))
   \<and> fl (0 * 3600 + 1 * 60 + 47 / 2) = Fin (167 / 2)
   \<and> is_end (strip ''progress=end\<newline>'')
   \<and> consume (Fin 10) \<lparr>last_t = Fin 5, updates = [Fin 5]\<rparr>
        [''progress=end\<newline>'', ''out_time_ms=10000000\<newline>'']
       = \<lparr>last_t = Fin 5, updates = [Fin 5]\<rparr>"
proof -
  have a: "py_int ''5000000'' = Some 5000000"
    and b: "py_int ''00'' = Some 0" "py_int ''01'' = Some 1"
    and c: "py_float ''23.500000'' = Some (Fin (47 / 2))"
    and v: "fl (5000000 / 1000000) = Fin 5" "fl (0 * 3600 + 1 * 60 + 47 / 2) = Fin (167 / 2)"
      "int_to_float (60 * (1 + 60 * 0)) = Some 60"
    by (simp_all add: num_defs str_defs cong: let_weak_cong old.prod.case_cong_weak)
  have d: "strip (''00'' @ '':'' @ ''01'' @ '':'' @ ''23.500000'')
      = ''00'' @ '':'' @ ''01'' @ '':'' @ ''23.500000''"
    and e: "CHR '':'' \<notin> set ''00'' \<and> CHR '':'' \<notin> set ''01'' \<and> CHR '':'' \<notin> set ''23.500000''"
    and f: "is_end (strip ''progress=end\<newline>'')"
    and g: "\<bar>5000000 :: int\<bar> < 2 ^ 53" "\<bar>60 * (1 + 60 * 0) :: int\<bar> < 2 ^ 53"
    by (simp_all add: str_defs is_end_def)
  note t = progress_line_parsing [where v = "''5000000''" and ms = 5000000 and h = "''00''"
      and m = "''01''" and s = "''23.500000''" and hh = 0 and mm = 1 and sec = "Fin (47 / 2)"
      and ss = "47 / 2" and raw_line = "''progress=end\<newline>''" and duration = "Fin 10"
      and st = "\<lparr>last_t = Fin 5, updates = [Fin 5]\<rparr>"
      and rest = "[''out_time_ms=10000000\<newline>'']"]
  from t [THEN conjunct2, THEN conjunct1] a g(1)
  have 1: "line_time (''out_time_ms='' @ ''5000000'') = Some (fl (5000000 / 1000000))"
    by simp
  from t [THEN conjunct2, THEN conjunct2, THEN conjunct1] b c d e
  have 2: "line_time (''out_time='' @ ''00'' @ '':'' @ ''01'' @ '':'' @ ''23.500000'')
       = (case int_to_float (60 * (1 + 60 * 0)) of
            None \<Rightarrow> None
          | Some y \<Rightarrow> Some (fadd (Fin (47 / 2)) (Fin y)))"
    by simp
  from t [THEN conjunct2, THEN conjunct2, THEN conjunct2, THEN conjunct1] b c d e g(2)
  have 4: "line_time (''out_time='' @ ''00'' @ '':'' @ ''01'' @ '':'' @ ''23.500000'')
       = Some (fl (0 * 3600 + 1 * 60 + 47 / 2))"
    by simp
  from t [THEN conjunct2, THEN conjunct2, THEN conjunct2, THEN conjunct2, THEN conjunct2,
      THEN conjunct2, THEN conjunct2] f
  have 3: "consume (Fin 10) \<lparr>last_t = Fin 5, updates = [Fin 5]\<rparr>
        [''progress=end\<newline>'', ''out_time_ms=10000000\<newline>'']
       = \<lparr>last_t = Fin 5, updates = [Fin 5]\<rparr>"
    by blast
  from a b c d f g v 1 2 3 4 show ?thesis by blast
qed

text \<open>
  C6 (amended). A malformed line (empty after trimming, a key that is not recognised, a
  value of a timestamp key that fails to parse or is too large for a float, or a value
  of the \<open>progress\<close> key that is neither \<open>continue\<close> nor \<open>end\<close>) gives no timestamp and
  leaves the state of the loop and the bar as they are. The loop goes on with the next line, unless the line starts
  with \<open>progress=\<close> and contains \<open>end\<close>: such a line ends the loop. The model has no
  exception left: every \<open>except\<close> of the source is a branch that gives no timestamp.
\<close>

theorem malformed_line_ignored:
  assumes "malformed raw_line"
  shows "line_time (strip raw_line) = None
    \<and> advance duration st (line_time (strip raw_line)) = st
    \<and> (is_end (strip raw_line)
         \<longleftrightarrow> line_key (strip raw_line) = Some ''progress'' \<and> contains (strip raw_line) ''end'')
    \<and> consume duration st (raw_line # rest)
        = (if is_end (strip raw_line) then st else consume duration st rest)"
proof -
  let ?l = "strip raw_line"
  have none: "line_time ?l = None"
  proof -
    consider (empty) "?l = []"
      | (key) "line_key ?l \<notin> {Some ''out_time_ms'', Some ''out_time'', Some ''progress''}"
      | (ms) "line_key ?l = Some ''out_time_ms''"
          "(case after_first CHR ''='' ?l of
              None \<Rightarrow> True
            | Some v \<Rightarrow>
                (case py_int v of None \<Rightarrow> True | Some ms \<Rightarrow> int_to_float ms = None))"
      | (time) "line_key ?l = Some ''out_time''" "parse_out_time ?l = None"
      | (progress) "line_key ?l = Some ''progress''"
      using assms unfolding malformed_def Let_def by (elim disjE conjE) auto
    then show ?thesis
    proof cases
      case empty
      then show ?thesis
        by (simp add: line_time_def startswith_prefix)
    next
      case key
      then show ?thesis
        by (simp add: line_time_def key_ms key_time)
    next
      case ms
      then show ?thesis
        by (auto simp: line_time_def key_ms key_time split: option.splits)
    next
      case time
      then show ?thesis
        by (simp add: line_time_def key_ms key_time)
    next
      case progress
      then show ?thesis
        by (simp add: line_time_def key_ms key_time)
    qed
  qed
  have e: "is_end ?l \<longleftrightarrow> line_key ?l = Some ''progress'' \<and> contains ?l ''end''"
    by (simp add: is_end_def key_progress)
  have "?l = [] \<Longrightarrow> \<not> is_end ?l"
    by (simp add: is_end_def startswith_prefix)
  with none e show ?thesis
    by (auto simp: advance_def)
qed

theorem malformed_line_ignored_witness:
  "malformed ''out_time=garbage\<newline>'' \<and> malformed ''progress=\<newline>'' \<and> malformed ''   \<newline>''
   \<and> malformed ''out_time_ms=N/A\<newline>'' \<and> malformed ''frame=12\<newline>''
   \<and> \<not> is_end (strip ''out_time=garbage\<newline>'') \<and> \<not> is_end (strip ''progress=\<newline>'')
   \<and> \<not> is_end (strip ''   \<newline>'') \<and> \<not> is_end (strip ''out_time_ms=N/A\<newline>'')
   \<and> \<not> is_end (strip ''frame=12\<newline>'')
   \<and> line_time (strip ''out_time=garbage\<newline>'') = None
   \<and> consume (Fin 10) \<lparr>last_t = Fin 5, updates = [Fin 5]\<rparr>
        [''out_time=garbage\<newline>'', ''progress=\<newline>'', ''   \<newline>'', ''out_time_ms=N/A\<newline>'',
         ''frame=12\<newline>'']
       = \<lparr>last_t = Fin 5, updates = [Fin 5]\<rparr>"
proof -
  have m: "malformed ''out_time=garbage\<newline>''" "malformed ''progress=\<newline>''" "malformed ''   \<newline>''"
    "malformed ''out_time_ms=N/A\<newline>''" "malformed ''frame=12\<newline>''"
    by (simp_all add: malformed_def line_key_def parse_out_time_def split_on.simps
          str_defs num_defs Let_def
          cong: let_weak_cong old.prod.case_cong_weak)
  have n: "\<not> is_end (strip ''out_time=garbage\<newline>'')" "\<not> is_end (strip ''progress=\<newline>'')"
    "\<not> is_end (strip ''   \<newline>'')" "\<not> is_end (strip ''out_time_ms=N/A\<newline>'')"
    "\<not> is_end (strip ''frame=12\<newline>'')"
    by (simp_all add: is_end_def str_defs)
  from malformed_line_ignored [OF m(1)] malformed_line_ignored [OF m(2)]
    malformed_line_ignored [OF m(3)] malformed_line_ignored [OF m(4)]
    malformed_line_ignored [OF m(5)] m n
  show ?thesis
    by (simp del: consume.simps add: consume.simps(1))
qed

text \<open>
  C6 fails for a line with an invalid value of the \<open>progress\<close> key that contains \<open>end\<close>:
  \<open>progress=pending\<close> gives no timestamp, but it ends the loop, and the timestamp line
  after it, which would advance the bar to 5, is not consumed.
\<close>

theorem malformed_line_ignored_counterexample:
  "malformed ''progress=pending\<newline>''
   \<and> line_time (strip ''progress=pending\<newline>'') = None
   \<and> consume (Fin 10) \<lparr>last_t = Fin 0, updates = []\<rparr>
        [''progress=pending\<newline>'', ''out_time_ms=5000000\<newline>'']
       = \<lparr>last_t = Fin 0, updates = []\<rparr>
   \<and> consume (Fin 10) \<lparr>last_t = Fin 0, updates = []\<rparr> [''out_time_ms=5000000\<newline>'']
       = \<lparr>last_t = Fin 5, updates = [Fin 5]\<rparr>"
  by (simp add: malformed_def line_key_def loop_defs str_defs num_defs
        cong: let_weak_cong old.prod.case_cong_weak)

subsection \<open>The locator\<close>

lemma endswith_suffix: "endswith s p = suffix p s"
  by (simp add: endswith_rev suffix_to_prefix)

lemma lower_char_slash: "lower_char c = CHR ''/'' \<longleftrightarrow> c = CHR ''/''"
  by (auto simp: lower_char_def split: option.splits if_splits)

lemma join_valid: "valid_name n \<Longrightarrow> join folder n = dir_prefix folder @ n"
  by (cases n) (auto simp: join_def dir_prefix_def valid_name_def startswith_prefix)

lemma dir_prefix_last: "dir_prefix folder = [] \<or> last (dir_prefix folder) = CHR ''/''"
  by (auto simp: dir_prefix_def endswith_suffix suffix_def)

lemma dir_prefix_join:
  assumes "valid_name n"
  shows "dir_prefix (join folder n) = dir_prefix folder @ n @ ''/''"
proof -
  from assms have n: "n \<noteq> []" "last n \<noteq> CHR ''/''"
    unfolding valid_name_def by (metis last_in_set)+
  have j: "join folder n = dir_prefix folder @ n"
    using assms by (rule join_valid)
  from n have "\<not> suffix ''/'' (dir_prefix folder @ n)"
    by (auto simp: suffix_def) (metis last_appendR last_snoc append_assoc)
  moreover have "dir_prefix s = s @ ''/''" if "s \<noteq> []" "\<not> suffix ''/'' s" for s
    using that by (simp add: dir_prefix_def endswith_suffix)
  ultimately have "dir_prefix (dir_prefix folder @ n) = (dir_prefix folder @ n) @ ''/''"
    using n(1) by simp
  with j show ?thesis by simp
qed

lemma suffix_below_separator:
  assumes "CHR ''/'' \<notin> set x" and "p = [] \<or> last p = CHR ''/''"
  shows "suffix x (p @ n) \<longleftrightarrow> suffix x n"
proof
  assume "suffix x (p @ n)"
  then consider "suffix x n" | x' where "suffix x' p" "x = x' @ n"
    by (auto simp: suffix_append)
  then show "suffix x n"
  proof cases
    case 1
    then show ?thesis .
  next
    case 2
    show ?thesis
    proof (cases "x' = []")
      case True
      with 2 show ?thesis by simp
    next
      case False
      with 2(1) have "p \<noteq> []" "last x' = last p"
        by (auto simp: suffix_def)
      with assms(2) False have "CHR ''/'' \<in> set x'"
        by (metis last_in_set)
      with 2(2) assms(1) show ?thesis by simp
    qed
  qed
next
  assume "suffix x n"
  then show "suffix x (p @ n)"
    by (simp add: suffix_appendI)
qed

lemma lower_prefix_last:
  "p = [] \<or> last p = CHR ''/'' \<Longrightarrow> lower p = [] \<or> last (lower p) = CHR ''/''"
  by (cases "p = []") (simp_all add: lower_def last_map lower_char_slash)

lemma is_media_below: "is_media (dir_prefix folder @ n) = is_media n"
proof -
  have "endswith (lower (dir_prefix folder @ n)) x = endswith (lower n) x"
    if "x \<in> set MEDIA_EXTENSIONS" for x
  proof -
    from that have "CHR ''/'' \<notin> set x"
      by (auto simp: MEDIA_EXTENSIONS_def)
    then show ?thesis
      using suffix_below_separator [of x "lower (dir_prefix folder)" "lower n"]
        lower_prefix_last [OF dir_prefix_last [of folder]]
      by (simp add: endswith_suffix lower_def)
  qed
  then show ?thesis
    by (simp add: is_media_def list_ex_iff)
qed

lemma is_media_join: "valid_name n \<Longrightarrow> is_media (join folder n) = is_media n"
  by (simp add: join_valid is_media_below)

lemma wf_entries_iff:
  "wf_entries es \<longleftrightarrow> distinct (map entry_name es) \<and> (\<forall>x\<in>set es. wf_entry x)"
  by (induction es) auto

lemma wf_entry_name: "wf_entry x \<Longrightarrow> valid_name (entry_name x)"
  by (cases x) auto

lemma candidate_valid:
  "wf_entry x \<Longrightarrow>
   candidate folder x
     = (if isfile x \<and> is_media (entry_name x) then [dir_prefix folder @ entry_name x] else [])"
  by (simp add: candidate_def Let_def is_media_below join_valid wf_entry_name)

lemma first_component_here:
  "valid_name n \<Longrightarrow> first_component folder (dir_prefix folder @ n) = n"
  by (auto simp: first_component_def valid_name_def takeWhile_eq_all_conv)

lemma first_component_below:
  "valid_name d \<Longrightarrow> first_component folder (dir_prefix folder @ d @ CHR ''/'' # q) = d"
  by (simp add: first_component_def valid_name_def takeWhile_sep)

lemma walk_paths:
  "wf_entries es \<Longrightarrow> p \<in> set (walk folder es) \<Longrightarrow> \<exists>q. p = dir_prefix folder @ q"
  "wf_entry x \<Longrightarrow> p \<in> set (descend folder x) \<Longrightarrow>
     \<exists>q. p = dir_prefix folder @ entry_name x @ ''/'' @ q"
proof (induction folder es and folder x arbitrary: p and p rule: walk_descend.induct)
  case (1 folder es)
  from "1.prems"(2) consider x where "x \<in> set es" "\<not> isdir x" "p \<in> set (candidate folder x)"
    | x where "x \<in> set es" "isdir x" "p \<in> set (descend folder x)"
    by auto
  then show ?case
  proof cases
    case 1
    with "1.prems"(1) show ?thesis
      by (auto simp: wf_entries_iff candidate_valid split: if_splits)
  next
    case 2
    with "1.prems"(1) "1.IH" [of x p] show ?thesis
      by (auto simp: wf_entries_iff)
  qed
next
  case (2 folder n sub)
  then obtain q where "p = dir_prefix (join folder n) @ q"
    by auto
  with "2.prems"(1) show ?case
    by (auto simp: dir_prefix_join)
qed simp_all

lemma candidate_key:
  "wf_entry x \<Longrightarrow> p \<in> set (candidate folder x) \<Longrightarrow> first_component folder p = entry_name x"
  by (auto simp: candidate_valid first_component_here wf_entry_name split: if_splits)

lemma descend_key:
  "wf_entry x \<Longrightarrow> p \<in> set (descend folder x) \<Longrightarrow> first_component folder p = entry_name x"
  using walk_paths(2) [of x p folder] by (auto simp: first_component_below wf_entry_name)

lemma distinct_concat_key:
  assumes "distinct (map k xs)"
    and "\<And>x. x \<in> set xs \<Longrightarrow> distinct (g x)"
    and "\<And>x p. x \<in> set xs \<Longrightarrow> p \<in> set (g x) \<Longrightarrow> key p = k x"
  shows "distinct (concat (map g xs))"
  using assms
proof (induction xs)
  case Nil
  then show ?case by simp
next
  case (Cons x xs)
  have "set (g x) \<inter> set (g y) = {}" if "y \<in> set xs" for y
  proof -
    from that Cons.prems(1) have "k x \<noteq> k y" by auto
    with Cons.prems(3) [of x] Cons.prems(3) [of y] that show ?thesis
      by fastforce
  qed
  then have "set (g x) \<inter> set (concat (map g xs)) = {}"
    by auto
  moreover from Cons have "distinct (concat (map g xs))" and "distinct (g x)"
    by auto
  ultimately show ?case by simp
qed

lemma walk_distinct:
  "wf_entries es \<Longrightarrow> distinct (walk folder es)"
  "wf_entry x \<Longrightarrow> distinct (descend folder x)"
proof (induction folder es and folder x rule: walk_descend.induct)
  case (1 folder es)
  from "1.prems" have names: "distinct (map entry_name es)" and wf: "\<forall>x\<in>set es. wf_entry x"
    by (simp_all add: wf_entries_iff)
  have a: "distinct (concat (map (candidate folder) (filter (\<lambda>e. \<not> isdir e) es)))"
  proof (rule distinct_concat_key [where k = entry_name and key = "first_component folder"])
    show "distinct (map entry_name (filter (\<lambda>e. \<not> isdir e) es))"
      using names by (rule distinct_map_filter)
  next
    fix x assume "x \<in> set (filter (\<lambda>e. \<not> isdir e) es)"
    with wf show "distinct (candidate folder x)"
      by (simp add: candidate_valid)
  next
    fix x p assume "x \<in> set (filter (\<lambda>e. \<not> isdir e) es)" "p \<in> set (candidate folder x)"
    with wf show "first_component folder p = entry_name x"
      by (simp add: candidate_key)
  qed
  have b: "distinct (concat (map (descend folder) (filter isdir es)))"
  proof (rule distinct_concat_key [where k = entry_name and key = "first_component folder"])
    show "distinct (map entry_name (filter isdir es))"
      using names by (rule distinct_map_filter)
  next
    fix x assume "x \<in> set (filter isdir es)"
    with wf "1.IH" show "distinct (descend folder x)"
      by simp
  next
    fix x p assume "x \<in> set (filter isdir es)" "p \<in> set (descend folder x)"
    with wf show "first_component folder p = entry_name x"
      by (simp add: descend_key)
  qed
  have c: "p \<notin> set (descend folder y)"
    if "x \<in> set es" "\<not> isdir x" "p \<in> set (candidate folder x)" "y \<in> set es" "isdir y"
    for x y p
  proof
    assume "p \<in> set (descend folder y)"
    with that wf have "entry_name x = entry_name y"
      using candidate_key [of x p folder] descend_key [of y p folder] by simp
    with names that(1,4) have "x = y"
      by (simp add: distinct_map inj_on_def)
    with that(2,5) show False by simp
  qed
  from a b c show ?case by auto
next
  case (2 folder n sub)
  then show ?case by simp
qed simp_all

lemma regular_at_iff:
  "regular_at folder es p n \<longleftrightarrow>
     (Regular n \<in> set es \<and> p = join folder n)
     \<or> (\<exists>d sub. Directory d sub \<in> set es \<and> regular_at (join folder d) sub p n)"
  by (subst regular_at.simps) auto

lemma candidates_set:
  assumes "\<forall>x\<in>set es. wf_entry x"
  shows "(\<Union>x\<in>{x \<in> set es. P x}. set (candidate folder x))
    = {p. \<exists>n. Regular n \<in> set es \<and> P (Regular n) \<and> p = join folder n \<and> is_media n}"
proof (intro set_eqI iffI)
  fix p assume "p \<in> (\<Union>x\<in>{x \<in> set es. P x}. set (candidate folder x))"
  then obtain x where x: "x \<in> set es" "P x" "p \<in> set (candidate folder x)"
    by auto
  with assms have "wf_entry x" by simp
  with x(3) obtain n where "x = Regular n" "is_media n" "p = join folder n"
    by (cases x) (auto simp: candidate_valid join_valid split: if_splits)
  with x show "p \<in> {p. \<exists>n. Regular n \<in> set es \<and> P (Regular n) \<and> p = join folder n \<and> is_media n}"
    by auto
next
  fix p assume "p \<in> {p. \<exists>n. Regular n \<in> set es \<and> P (Regular n) \<and> p = join folder n \<and> is_media n}"
  then obtain n where n: "Regular n \<in> set es" "P (Regular n)" "p = join folder n" "is_media n"
    by auto
  with assms have "wf_entry (Regular n)" by blast
  with n have "p \<in> set (candidate folder (Regular n))"
    by (simp add: candidate_valid join_valid)
  with n show "p \<in> (\<Union>x\<in>{x \<in> set es. P x}. set (candidate folder x))"
    by blast
qed

lemma walk_set:
  "wf_entries es \<Longrightarrow>
     set (walk folder es) = {p. \<exists>n. regular_at folder es p n \<and> is_media n}"
  "wf_entry x \<Longrightarrow>
     set (descend folder x)
       = {p. \<exists>n d sub. x = Directory d sub \<and> regular_at (join folder d) sub p n \<and> is_media n}"
proof (induction folder es and folder x rule: walk_descend.induct)
  case (1 folder es)
  from "1.prems" have wf: "\<forall>x\<in>set es. wf_entry x"
    by (simp add: wf_entries_iff)
  have "set (walk folder es)
      = (\<Union>x\<in>{x \<in> set es. \<not> isdir x}. set (candidate folder x))
        \<union> (\<Union>x\<in>{x \<in> set es. isdir x}. set (descend folder x))"
    by auto
  also have "(\<Union>x\<in>{x \<in> set es. \<not> isdir x}. set (candidate folder x))
      = {p. \<exists>n. Regular n \<in> set es \<and> p = join folder n \<and> is_media n}"
    using candidates_set [OF wf, where P = "\<lambda>e. \<not> isdir e" and folder = folder] by simp
  also have "(\<Union>x\<in>{x \<in> set es. isdir x}. set (descend folder x))
      = {p. \<exists>n d sub. Directory d sub \<in> set es \<and> regular_at (join folder d) sub p n \<and> is_media n}"
  proof -
    have "set (descend folder x)
        = {p. \<exists>n d sub. x = Directory d sub \<and> regular_at (join folder d) sub p n \<and> is_media n}"
      if "x \<in> set es" "isdir x" for x
      using that wf "1.IH" [of x] by simp
    then have "(\<Union>x\<in>{x \<in> set es. isdir x}. set (descend folder x))
        = (\<Union>x\<in>{x \<in> set es. isdir x}.
             {p. \<exists>n d sub. x = Directory d sub \<and> regular_at (join folder d) sub p n \<and> is_media n})"
      by simp
    also have "\<dots> = {p. \<exists>n d sub. Directory d sub \<in> set es
          \<and> regular_at (join folder d) sub p n \<and> is_media n}"
      by auto (metis isdir.simps(1))
    finally show ?thesis .
  qed
  also have "{p. \<exists>n. Regular n \<in> set es \<and> p = join folder n \<and> is_media n}
      \<union> {p. \<exists>n d sub. Directory d sub \<in> set es \<and> regular_at (join folder d) sub p n \<and> is_media n}
      = {p. \<exists>n. regular_at folder es p n \<and> is_media n}"
    by (auto simp: regular_at_iff [of folder es])
  finally show ?case .
next
  case (2 folder n sub)
  then show ?case by simp
qed simp_all

lemma count_list_distinct: "distinct xs \<Longrightarrow> x \<in> set xs \<Longrightarrow> count_list xs x = 1"
  by (induction xs) auto

lemma listing_distinct:
  assumes "wf_entries es"
  shows "distinct (concat (map (candidate folder) es))"
proof (rule distinct_concat_key [where k = entry_name and key = "first_component folder"])
  show "distinct (map entry_name es)"
    using assms by (simp add: wf_entries_iff)
next
  fix x assume "x \<in> set es"
  with assms show "distinct (candidate folder x)"
    by (simp add: wf_entries_iff candidate_valid)
next
  fix x p assume "x \<in> set es" "p \<in> set (candidate folder x)"
  with assms show "first_component folder p = entry_name x"
    by (simp add: wf_entries_iff candidate_key)
qed

text \<open>
  C8. In a directory tree whose names are file names, distinct in each directory:
  the yielded paths are distinct; in recursive mode they are the paths of the regular
  files of the tree whose name ends, in any case, with one of the ten extensions, and
  in non-recursive mode the paths of such files among the direct children; so every
  such file is yielded exactly once, and no directory, no other entry and no file
  with another suffix is yielded.
\<close>

theorem locator_yields_media_files:
  assumes "wf_entries (listing e)"
  shows "distinct (iter_media_files e folder recursive)
    \<and> set (iter_media_files e folder True)
        = {p. \<exists>n. regular_at folder (listing e) p n \<and> is_media n}
    \<and> set (iter_media_files e folder False)
        = {p. \<exists>n. Regular n \<in> set (listing e) \<and> p = join folder n \<and> is_media n}
    \<and> (regular_at folder (listing e) p n \<and> is_media n \<longrightarrow>
         count_list (iter_media_files e folder True) p = 1)
    \<and> (Regular n \<in> set (listing e) \<and> is_media n \<longrightarrow>
         count_list (iter_media_files e folder False) (join folder n) = 1)
    \<and> (is_media n \<longleftrightarrow>
         (\<exists>x\<in>set [''.wav'', ''.flac'', ''.aac'', ''.ogg'', ''.mp3'', ''.mp4'', ''.m4a'', ''.mxf'',
                    ''.mov'', ''.avi'']. suffix x (lower n)))"
proof -
  from assms have wf: "\<forall>x\<in>set (listing e). wf_entry x"
    by (simp add: wf_entries_iff)
  have d: "distinct (iter_media_files e folder r)" for r
    using walk_distinct(1) [OF assms] listing_distinct [OF assms]
    by (simp add: iter_media_files_def)
  have rec: "set (iter_media_files e folder True)
      = {p. \<exists>n. regular_at folder (listing e) p n \<and> is_media n}"
    using walk_set(1) [OF assms] by (simp add: iter_media_files_def)
  have flat: "set (iter_media_files e folder False)
      = {p. \<exists>n. Regular n \<in> set (listing e) \<and> p = join folder n \<and> is_media n}"
    using candidates_set [OF wf, where P = "\<lambda>x. True" and folder = folder]
    by (simp add: iter_media_files_def)
  have c1: "regular_at folder (listing e) p n \<and> is_media n \<longrightarrow>
      count_list (iter_media_files e folder True) p = 1"
    using count_list_distinct [OF d [of True], of p] rec by blast
  have c2: "Regular n \<in> set (listing e) \<and> is_media n \<longrightarrow>
      count_list (iter_media_files e folder False) (join folder n) = 1"
    using count_list_distinct [OF d [of False], of "join folder n"] flat by blast
  have ext: "is_media n \<longleftrightarrow>
      (\<exists>x\<in>set [''.wav'', ''.flac'', ''.aac'', ''.ogg'', ''.mp3'', ''.mp4'', ''.m4a'', ''.mxf'',
                 ''.mov'', ''.avi'']. suffix x (lower n))"
    by (simp add: is_media_def MEDIA_EXTENSIONS_def endswith_suffix)
  from d [of recursive] rec flat c1 c2 ext show ?thesis
    by blast
qed

theorem locator_yields_media_files_witness:
  "wf_entries (listing (test_env True [] (Runs [] 0 True) test_tree))
   \<and> regular_at ''in'' test_tree ''in/sub/clip.mxf'' ''clip.mxf''
   \<and> is_media ''clip.mxf'' \<and> is_media ''sound.WAV'' \<and> \<not> is_media ''notes.txt''
   \<and> iter_media_files (test_env True [] (Runs [] 0 True) test_tree) ''in'' True
       = [''in/sound.WAV'', ''in/sub/clip.mxf'']
   \<and> iter_media_files (test_env True [] (Runs [] 0 True) test_tree) ''in'' False
       = [''in/sound.WAV'']
   \<and> count_list (iter_media_files (test_env True [] (Runs [] 0 True) test_tree) ''in'' True)
        ''in/sub/clip.mxf'' = 1"
proof -
  let ?e = "test_env True [] (Runs [] 0 True) test_tree"
  have l: "listing ?e = test_tree"
    by (simp add: test_env_def)
  have wf: "wf_entries (listing ?e)"
    by (simp add: test_env_def test_tree_def valid_name_def)
  have m: "is_media ''clip.mxf''" "is_media ''sound.WAV''" "\<not> is_media ''notes.txt''"
    by (simp_all add: is_media_def MEDIA_EXTENSIONS_def str_defs)
  have "regular_at (join ''in'' ''sub'') [Regular ''clip.mxf'', Directory ''x.wav'' []]
      (join (join ''in'' ''sub'') ''clip.mxf'') ''clip.mxf''"
    by (rule regular_at.here) simp
  then have "regular_at ''in'' test_tree (join (join ''in'' ''sub'') ''clip.mxf'') ''clip.mxf''"
    by (rule regular_at.below [rotated]) (simp add: test_tree_def)
  then have r: "regular_at ''in'' test_tree ''in/sub/clip.mxf'' ''clip.mxf''"
    by (simp add: join_def str_defs)
  have t: "iter_media_files ?e ''in'' True = [''in/sound.WAV'', ''in/sub/clip.mxf'']"
    and f: "iter_media_files ?e ''in'' False = [''in/sound.WAV'']"
    by (simp_all add: test_env_def test_tree_def batch_defs str_defs Let_def
          cong: let_weak_cong)
  from locator_yields_media_files [OF wf, of "''in''" True "''in/sub/clip.mxf''" "''clip.mxf''"] r m(1) l
  have c: "count_list (iter_media_files ?e ''in'' True) ''in/sub/clip.mxf'' = 1"
    by simp
  from wf r m t f c show ?thesis by simp
qed

end
